theory Spec2Isabelle
  imports Main "HOL-Library.Word"
begin

unbundle bit_operations_syntax

section \<open>Common data: bytes, Python errors, little-endian packing\<close>

type_synonym byte = "8 word"

text \<open>The exceptions the modelled Python code can raise.\<close>

datatype error =
  AssertionError | IndexError | KeyError | StructError | ValueError | ZeroDivisionError

text \<open>
  \<open>struct.pack\<close> of one integer into \<open>n\<close> little-endian bytes. The range check of the
  format character is done by the callers below; negative values come out in two's
  complement, as \<open>'<i'\<close> and \<open>'<h'\<close> produce them.
\<close>

fun le_bytes :: "nat \<Rightarrow> int \<Rightarrow> byte list" where
  "le_bytes 0 v = []"
| "le_bytes (Suc n) v = word_of_int v # le_bytes n (v div 256)"

text \<open>Reading an unsigned little-endian integer back (\<open>struct.unpack('<I', ...)\<close>).\<close>

fun le_uint :: "byte list \<Rightarrow> int" where
  "le_uint [] = 0"
| "le_uint (b # bs) = uint b + 256 * le_uint bs"

section \<open>riff.py: the chunk codec\<close>

definition uint32_to_bytes :: "int \<Rightarrow> error + byte list" where
  "uint32_to_bytes v =
     (if 0 \<le> v \<and> v < 2 ^ 32 then Inr (le_bytes 4 v) else Inl StructError)"

definition make_chunk :: "byte list \<Rightarrow> byte list \<Rightarrow> error + byte list" where
  "make_chunk identifier data =
     (if length identifier \<noteq> 4 then Inl AssertionError
      else let data' = (if length data mod 2 = 1 then data @ [0] else data)
           in case uint32_to_bytes (int (length data')) of
                Inl e \<Rightarrow> Inl e
              | Inr n \<Rightarrow> Inr (identifier @ n @ data'))"

definition make_list_chunk :: "byte list \<Rightarrow> byte list \<Rightarrow> byte list list \<Rightarrow> error + byte list" where
  "make_list_chunk chunk_identifier list_identifier chunks =
     (if length chunk_identifier \<noteq> 4 then Inl AssertionError
      else if length list_identifier \<noteq> 4 then Inl AssertionError
      else let data = concat chunks
           in case uint32_to_bytes (int (length data) + int (length list_identifier)) of
                Inl e \<Rightarrow> Inl e
              | Inr n \<Rightarrow> Inr (chunk_identifier @ n @ list_identifier @ data))"

text \<open>The tags \<open>b'LIST'\<close> and \<open>b'RIFF'\<close>.\<close>

definition tag_LIST :: "byte list" where
  "tag_LIST = [0x4C, 0x49, 0x53, 0x54]"

definition tag_RIFF :: "byte list" where
  "tag_RIFF = [0x52, 0x49, 0x46, 0x46]"

definition make_list :: "byte list \<Rightarrow> byte list list \<Rightarrow> error + byte list" where
  "make_list identifier chunks = make_list_chunk tag_LIST identifier chunks"

definition make_riff :: "byte list \<Rightarrow> byte list list \<Rightarrow> error + byte list" where
  "make_riff identifier chunks = make_list_chunk tag_RIFF identifier chunks"

section \<open>wav.py: the PCM writer\<close>

text \<open>\<open>write_int\<close> and \<open>write_short\<close> pack with \<open>'<i'\<close> and \<open>'<h'\<close>, which raise out of range.\<close>

definition write_int :: "int \<Rightarrow> error + byte list" where
  "write_int v =
     (if - (2 ^ 31) \<le> v \<and> v < 2 ^ 31 then Inr (le_bytes 4 v) else Inl StructError)"

definition write_short :: "int \<Rightarrow> error + byte list" where
  "write_short v =
     (if - (2 ^ 15) \<le> v \<and> v < 2 ^ 15 then Inr (le_bytes 2 v) else Inl StructError)"

text \<open>
  A sequence of \<open>file.write\<close> calls: the bytes written, in order, or the first error
  raised while an argument is computed.
\<close>

fun write_all :: "(error + byte list) list \<Rightarrow> error + byte list" where
  "write_all [] = Inr []"
| "write_all (w # ws) =
     (case w of
        Inl e \<Rightarrow> Inl e
      | Inr b \<Rightarrow> (case write_all ws of Inl e \<Rightarrow> Inl e | Inr bs \<Rightarrow> Inr (b @ bs)))"

text \<open>Python's \<open>a // b\<close> on integers.\<close>

definition floordiv :: "int \<Rightarrow> int \<Rightarrow> error + int" where
  "floordiv a b = (if b = 0 then Inl ZeroDivisionError else Inr (a div b))"

record writer =
  sample_rate :: int
  channels :: int
  bits_per_sample :: int
  bytes_per_sample :: int
  signed :: bool

text \<open>\<open>Writer.__init__\<close>\<close>

definition Writer :: "int \<Rightarrow> int \<Rightarrow> int \<Rightarrow> bool \<Rightarrow> writer" where
  "Writer sr ch bits sg =
     \<lparr>sample_rate = sr, channels = ch, bits_per_sample = bits,
      bytes_per_sample = bits div 8, signed = sg\<rparr>"

text \<open>The four-character tags written by \<open>Writer.write\<close>.\<close>

definition tag_WAVE :: "byte list" where "tag_WAVE = [0x57, 0x41, 0x56, 0x45]"
definition tag_fmt :: "byte list" where "tag_fmt = [0x66, 0x6D, 0x74, 0x20]"
definition tag_data :: "byte list" where "tag_data = [0x64, 0x61, 0x74, 0x61]"
definition tag_smpl :: "byte list" where "tag_smpl = [0x73, 0x6D, 0x70, 0x6C]"
definition tag_cue :: "byte list" where "tag_cue = [0x63, 0x75, 0x65, 0x20]"
definition tag_adtl :: "byte list" where "tag_adtl = [0x61, 0x64, 0x74, 0x6C]"
definition tag_labl :: "byte list" where "tag_labl = [0x6C, 0x61, 0x62, 0x6C]"
definition loop_label :: "byte list" where "loop_label = [0x6C, 0x6F, 0x6F, 0x70, 0, 0]"

text \<open>
  \<open>struct.pack(pack_fmt * len(sound_data), *sound_data)\<close>: one byte per element for
  8 bits, otherwise a short per element. The format has no byte-order prefix, so the
  shorts are in native order; they are modelled as little-endian. An element of a
  \<open>bytes\<close> object is in range for both formats.
\<close>

definition pack_samples :: "int \<Rightarrow> byte list \<Rightarrow> byte list" where
  "pack_samples bits sound_data =
     (if bits = 8 then sound_data else concat (map (\<lambda>b. le_bytes 2 (uint b)) sound_data))"

text \<open>
  \<open>Writer.write\<close>. The class attributes \<open>INCLUDE_LOOP_CUE_CHUNK_IN_WAV\<close> and
  \<open>INCLUDE_LOOP_SMPL_CHUNK_IN_WAV\<close> are the parameters \<open>include_cue\<close> and \<open>include_smpl\<close>;
  \<open>loop_offset\<close> is \<open>None\<close> or an integer. The result is the bytes written to the file.
\<close>

definition Writer_write :: "bool \<Rightarrow> bool \<Rightarrow> writer \<Rightarrow> byte list \<Rightarrow> int option \<Rightarrow> error + byte list" where
  "Writer_write include_cue include_smpl w sound_data0 loop_offset =
     (let sound_data =
            (if bytes_per_sample w = 1 \<and> length sound_data0 mod 2 = 1
             then sound_data0 @ [if signed w then 0x00 else 0x80] else sound_data0);
          chunk_size0 = 36 + int (length sound_data) * bytes_per_sample w;
          chunk_size1 =
            (if loop_offset \<noteq> None \<and> include_cue then chunk_size0 + 36 + 30 else chunk_size0);
          chunk_size =
            (if loop_offset \<noteq> None \<and> include_smpl then chunk_size1 + 68 else chunk_size1)
      in write_all
          ([Inr tag_RIFF,
            write_int chunk_size,
            Inr tag_WAVE,
            Inr tag_fmt,
            write_int 16,
            write_short 1,
            write_short (channels w),
            write_int (sample_rate w),
            write_int (sample_rate w * bytes_per_sample w * channels w),
            write_short (bytes_per_sample w * channels w),
            write_short (bits_per_sample w),
            Inr tag_data,
            write_int (int (length sound_data) * bytes_per_sample w),
            Inr (pack_samples (bits_per_sample w) sound_data)]
           @ (case loop_offset of
                None \<Rightarrow> []
              | Some lo \<Rightarrow>
                  (if include_smpl then
                     [Inr tag_smpl,
                      write_int 60,
                      write_int 0,
                      write_int 0,
                      (case floordiv 1000000000 (sample_rate w) of
                         Inl e \<Rightarrow> Inl e | Inr p \<Rightarrow> write_int p),
                      write_int 60,
                      write_int 0,
                      write_int 0,
                      write_int 0,
                      write_int 1,
                      write_int 0,
                      write_int 0,
                      write_int 0,
                      write_int lo,
                      (case floordiv (int (length sound_data)) (channels w) of
                         Inl e \<Rightarrow> Inl e | Inr n \<Rightarrow> write_int n),
                      write_int 0,
                      write_int 0]
                   else [])
                  @ (if include_cue then
                       [Inr tag_cue,
                        write_int (4 + 1 * 24),
                        write_int 1,
                        write_int 0,
                        write_int lo,
                        Inr tag_data,
                        write_int 0,
                        write_int 0,
                        write_int lo,
                        Inr tag_LIST,
                        write_int 22,
                        Inr tag_adtl,
                        Inr tag_labl,
                        write_int (4 + 6),
                        write_int 0,
                        Inr loop_label]
                     else []))))"

text \<open>The number of bytes one \<open>file.write\<close> adds to the file.\<close>

definition written :: "error + byte list \<Rightarrow> nat" where
  "written w = (case w of Inl e \<Rightarrow> 0 | Inr b \<Rightarrow> length b)"


text \<open>The declared top-level chunk size: the four bytes after \<open>RIFF\<close>, read back.\<close>

definition chunk_size_field :: "byte list \<Rightarrow> int" where
  "chunk_size_field out = le_uint (take 4 (drop 4 out))"

section \<open>Python lists and byte streams\<close>

text \<open>
  \<open>xs[i]\<close> and \<open>xs[i] = v\<close> on a Python list: a negative index counts from the end, and an
  index outside \<open>[-len, len)\<close> raises \<open>IndexError\<close>.
\<close>

definition py_index :: "'a list \<Rightarrow> int \<Rightarrow> int option" where
  "py_index xs i =
     (if 0 \<le> i \<and> i < int (length xs) then Some i
      else if i < 0 \<and> - int (length xs) \<le> i then Some (int (length xs) + i)
      else None)"

definition py_get :: "'a list \<Rightarrow> int \<Rightarrow> error + 'a" where
  "py_get xs i = (case py_index xs i of None \<Rightarrow> Inl IndexError | Some j \<Rightarrow> Inr (xs ! nat j))"

definition py_set :: "'a list \<Rightarrow> int \<Rightarrow> 'a \<Rightarrow> error + 'a list" where
  "py_set xs i v =
     (case py_index xs i of None \<Rightarrow> Inl IndexError | Some j \<Rightarrow> Inr (xs[nat j := v]))"

text \<open>
  utils.py. A file object is its bytes and a read position; \<open>struct.unpack\<close> raises
  \<open>struct.error\<close> when \<open>read\<close> returned fewer bytes than the format needs.
\<close>

definition read_ubyte :: "byte list \<Rightarrow> nat \<Rightarrow> error + (int \<times> nat)" where
  "read_ubyte f pos =
     (if pos < length f then Inr (uint (f ! pos), pos + 1) else Inl StructError)"

definition read_ushort :: "byte list \<Rightarrow> nat \<Rightarrow> error + (int \<times> nat)" where
  "read_ushort f pos =
     (if pos + 2 \<le> length f then Inr (uint (f ! pos) + 256 * uint (f ! (pos + 1)), pos + 2)
      else Inl StructError)"

section \<open>wad.py: the lump decompressor\<close>

text \<open>
  The inner loop \<open>for __ in range(length)\<close> of \<open>WADFile._decompress\<close>:
  \<open>output_data.append(output_data[offset]); offset += 1\<close>. Here \<open>offset\<close> is already the
  index \<open>len(output_data) - offset\<close>, which Python accepts when it is negative.
\<close>

fun copy_run :: "byte list \<Rightarrow> int \<Rightarrow> nat \<Rightarrow> error + byte list" where
  "copy_run output_data offset 0 = Inr output_data"
| "copy_run output_data offset (Suc n) =
     (case py_get output_data offset of
        Inl e \<Rightarrow> Inl e
      | Inr b \<Rightarrow> copy_run (output_data @ [b]) (offset + 1) n)"

text \<open>
  The two nested loops of \<open>_decompress\<close> as one function of the loop state: the read
  position, the flag byte as shifted so far, the number of iterations of
  \<open>for _ in range(8)\<close> still to run, and the output. With no iteration left, control is
  back at \<open>while not finished\<close>, which reads the next flag byte. The end marker sets
  \<open>finished\<close> and breaks, so the output is returned. Reading \<open>compressed_data[position]\<close>
  at or after the end raises \<open>IndexError\<close>.
\<close>

function decompress_loop :: "byte list \<Rightarrow> nat \<Rightarrow> int \<Rightarrow> nat \<Rightarrow> byte list \<Rightarrow> error + byte list" where
  "decompress_loop compressed_data position flag_byte bits output_data =
     (if bits = 0 then
        (if position < length compressed_data
         then decompress_loop compressed_data (position + 1)
                (uint (compressed_data ! position)) 8 output_data
         else Inl IndexError)
      else if flag_byte AND 1 \<noteq> 0 then
        (if position < length compressed_data \<and> position + 1 < length compressed_data then
           let offset0 = uint (compressed_data ! position);
               length0 = uint (compressed_data ! (position + 1));
               offset = push_bit 4 offset0 + drop_bit 4 (length0 AND 0xf0);
               len = length0 AND 0x0f
           in if len = 0 then Inr output_data
              else if \<not> offset > 0 then Inl AssertionError
              else (case copy_run output_data (int (length output_data) - offset) (nat (len + 1)) of
                      Inl e \<Rightarrow> Inl e
                    | Inr output_data' \<Rightarrow>
                        decompress_loop compressed_data (position + 2) (drop_bit 1 flag_byte)
                          (bits - 1) output_data')
         else Inl IndexError)
      else
        (if position < length compressed_data
         then decompress_loop compressed_data (position + 1) (drop_bit 1 flag_byte) (bits - 1)
                (output_data @ [compressed_data ! position])
         else Inl IndexError))"
  by pat_completeness auto
termination
  by (relation "measure (\<lambda>(d, p, f, b, out). (length d - p) * 9 + b)") auto

declare decompress_loop.simps [simp del]

text \<open>\<open>WADFile._decompress\<close>\<close>

definition decompress :: "byte list \<Rightarrow> error + byte list" where
  "decompress compressed_data = decompress_loop compressed_data 0 0 0 []"

subsection \<open>The compression scheme in the specification's words\<close>

text \<open>
  A back-reference is two bytes \<open>b0, b1\<close> with \<open>offset = (b0 << 4) | (b1 >> 4)\<close> and
  \<open>length = b1 & 0x0F\<close>.
\<close>

definition spec_offset :: "byte \<Rightarrow> byte \<Rightarrow> nat" where
  "spec_offset b0 b1 = push_bit 4 (unat b0) OR drop_bit 4 (unat b1)"

definition spec_length :: "byte \<Rightarrow> nat" where
  "spec_length b1 = unat b1 AND 0x0F"

text \<open>
  Copying \<open>n\<close> bytes one at a time from output position (current output length - offset),
  each byte appended before the next source position is computed.
\<close>

fun spec_copy :: "byte list \<Rightarrow> nat \<Rightarrow> nat \<Rightarrow> byte list" where
  "spec_copy out offset 0 = out"
| "spec_copy out offset (Suc n) = spec_copy (out @ [out ! (length out - offset)]) offset n"

text \<open>
  The coded items of one group, one per flag bit in the order given. The result is
  \<open>None\<close> when the stream is not valid for the specification (it ends inside an item, or a
  back-reference has offset 0 or an offset beyond the output so far).
\<close>

datatype group_result = Stop "byte list" | Continue nat "byte list"

fun spec_items :: "bool list \<Rightarrow> byte list \<Rightarrow> nat \<Rightarrow> byte list \<Rightarrow> group_result option" where
  "spec_items [] data pos out = Some (Continue pos out)"
| "spec_items (b # bs) data pos out =
     (if \<not> b then
        (if pos < length data then spec_items bs data (pos + 1) (out @ [data ! pos]) else None)
      else if pos + 1 < length data then
        (let offset = spec_offset (data ! pos) (data ! (pos + 1));
             len = spec_length (data ! (pos + 1))
         in if len = 0 then Some (Stop out)
            else if 0 < offset \<and> offset \<le> length out
            then spec_items bs data (pos + 2) (spec_copy out offset (len + 1))
            else None)
      else None)"

text \<open>The flag bits of a flag byte, least-significant bit first.\<close>

definition flag_bits :: "byte \<Rightarrow> bool list" where
  "flag_bits flag = map (bit flag) [0..<8]"

section \<open>gamemap.py: the map converter\<close>

definition MAP_SIZE :: int where "MAP_SIZE = 64"
definition PLANE_COUNT :: nat where "PLANE_COUNT = 2"
definition FLOOR_CODE_START :: int where "FLOOR_CODE_START = 0x6c"
definition FLOOR_CODE_STOP :: int where "FLOOR_CODE_STOP = 0x8f"
definition DOOR_CODE_START :: int where "DOOR_CODE_START = 0x5a"
definition DOOR_CODE_STOP :: int where "DOOR_CODE_STOP = 0x61"
definition PUSHWALL :: int where "PUSHWALL = 0x62"
definition NORTH :: int where "NORTH = 0x1"
definition SOUTH :: int where "SOUTH = 0x2"
definition WEST :: int where "WEST = 0x4"
definition EAST :: int where "EAST = 0x8"

text \<open>
  An entry of \<open>self._objects\<close>: the dict \<open>{'x', 'y', 'code'}\<close>, with the key \<open>'wall'\<close> present
  only for a pushwall.
\<close>

record map_object =
  x :: int
  y :: int
  code :: int
  wall :: "int option"

record game_map =
  name :: string
  floorcodes :: "int list"
  walls :: "int list"
  objects :: "map_object list"

text \<open>\<open>[read_ubyte(self._f) for _ in range(n)]\<close>\<close>

fun read_ubytes :: "byte list \<Rightarrow> nat \<Rightarrow> nat \<Rightarrow> error + (int list \<times> nat)" where
  "read_ubytes f pos 0 = Inr ([], pos)"
| "read_ubytes f pos (Suc n) =
     (case read_ubyte f pos of
        Inl e \<Rightarrow> Inl e
      | Inr (b, pos') \<Rightarrow>
          (case read_ubytes f pos' n of
             Inl e \<Rightarrow> Inl e
           | Inr (bs, pos'') \<Rightarrow> Inr (b # bs, pos'')))"

text \<open>\<open>_read_tiles\<close>: 64 * 64 wall bytes, then 64 floor codes.\<close>

definition read_tiles :: "byte list \<Rightarrow> nat \<Rightarrow> error + (int list \<times> int list \<times> nat)" where
  "read_tiles f pos =
     (case read_ubytes f pos (nat (MAP_SIZE * MAP_SIZE)) of
        Inl e \<Rightarrow> Inl e
      | Inr (ws, pos') \<Rightarrow>
          (case read_ubytes f pos' 64 of
             Inl e \<Rightarrow> Inl e
           | Inr (fcs, pos'') \<Rightarrow> Inr (ws, fcs, pos'')))"

text \<open>
  The body of the loop of \<open>_read_objects\<close> for one object. The result is the object that
  is appended, the warning that is logged if any (the coordinates in the message), and
  the new read position. \<open>bytes_x == ''\<close> compares bytes with a str, which is never equal,
  so at the end of the data \<open>struct.unpack\<close> raises.
\<close>

definition read_object :: "byte list \<Rightarrow> nat \<Rightarrow> error + (map_object \<times> (int \<times> int) option \<times> nat)" where
  "read_object f pos =
     (if \<not> pos < length f then Inl StructError
      else
        let x0 = uint (f ! pos) in
        case read_ubyte f (pos + 1) of
          Inl e \<Rightarrow> Inl e
        | Inr (y0, pos2) \<Rightarrow>
            let warning = (if \<not> (0 \<le> x0 \<and> x0 \<le> MAP_SIZE \<and> 0 \<le> y0 \<and> y0 \<le> MAP_SIZE)
                           then Some (x0, y0) else None);
                x1 = (if x0 < 0 then x0 + MAP_SIZE else x0);
                x2 = (if x1 \<ge> MAP_SIZE then x1 - MAP_SIZE else x1);
                y1 = (if y0 < 0 then y0 + MAP_SIZE else y0);
                y2 = (if y1 \<ge> MAP_SIZE then y1 - MAP_SIZE else y1)
            in case read_ubyte f pos2 of
                 Inl e \<Rightarrow> Inl e
               | Inr (object_code, pos3) \<Rightarrow>
                   let obj = \<lparr>x = x2, y = y2, code = object_code, wall = None\<rparr> in
                   if object_code = PUSHWALL then
                     (case read_ubyte f pos3 of
                        Inl e \<Rightarrow> Inl e
                      | Inr (w, pos4) \<Rightarrow> Inr (obj\<lparr>wall := Some w\<rparr>, warning, pos4))
                   else Inr (obj, warning, pos3))"

text \<open>The loop \<open>for o in range(object_count)\<close>, with the objects and warnings so far.\<close>

fun read_object_loop ::
  "byte list \<Rightarrow> nat \<Rightarrow> nat \<Rightarrow> map_object list \<Rightarrow> (int \<times> int) list
     \<Rightarrow> error + (map_object list \<times> (int \<times> int) list \<times> nat)" where
  "read_object_loop f 0 pos objs warnings = Inr (objs, warnings, pos)"
| "read_object_loop f (Suc n) pos objs warnings =
     (case read_object f pos of
        Inl e \<Rightarrow> Inl e
      | Inr (obj, w, pos') \<Rightarrow>
          read_object_loop f n pos' (objs @ [obj])
            (case w of None \<Rightarrow> warnings | Some c \<Rightarrow> warnings @ [c]))"

text \<open>\<open>_read_objects\<close>: the count, six skipped bytes, then the objects.\<close>

definition read_objects :: "byte list \<Rightarrow> nat \<Rightarrow> error + (map_object list \<times> (int \<times> int) list \<times> nat)" where
  "read_objects f pos =
     (case read_ushort f pos of
        Inl e \<Rightarrow> Inl e
      | Inr (object_count, pos') \<Rightarrow> read_object_loop f (nat object_count) (pos' + 6) [] [])"

text \<open>\<open>GameMap.__init__\<close>: the map and the warnings logged while reading it.\<close>

definition GameMap :: "string \<Rightarrow> byte list \<Rightarrow> error + (game_map \<times> (int \<times> int) list)" where
  "GameMap nm data =
     (case read_tiles data 0 of
        Inl e \<Rightarrow> Inl e
      | Inr (ws, fcs, pos) \<Rightarrow>
          (case read_objects data pos of
             Inl e \<Rightarrow> Inl e
           | Inr (objs, warnings, pos') \<Rightarrow>
               Inr (\<lparr>name = nm, floorcodes = fcs, walls = ws, objects = objs\<rparr>, warnings)))"

text \<open>The wall-code conversion of \<open>generate_dos_map\<close> for one tile.\<close>

definition convert_wall :: "int list \<Rightarrow> int \<Rightarrow> error + int" where
  "convert_wall fcs t =
     (if t \<ge> 0x80 then Inr (t - 0x80)
      else if t < 64 then
        (case py_get fcs t of Inl e \<Rightarrow> Inl e | Inr c \<Rightarrow> Inr (FLOOR_CODE_START + c))
      else Inr t)"

text \<open>The loop over \<open>range(len(self._walls))\<close>, which fills plane 0 tile by tile.\<close>

fun convert_walls :: "int list \<Rightarrow> int list \<Rightarrow> error + int list" where
  "convert_walls fcs [] = Inr []"
| "convert_walls fcs (w # ws) =
     (case convert_wall fcs w of
        Inl e \<Rightarrow> Inl e
      | Inr t \<Rightarrow>
          (case convert_walls fcs ws of Inl e \<Rightarrow> Inl e | Inr ts \<Rightarrow> Inr (t # ts)))"

definition is_dos_floor_code :: "int \<Rightarrow> bool" where
  "is_dos_floor_code c = (FLOOR_CODE_START \<le> c \<and> c \<le> FLOOR_CODE_STOP)"

text \<open>The argument \<open>move_coord_name\<close> of \<open>_is_valid_pushwall_direction\<close>: \<open>'x'\<close> or \<open>'y'\<close>.\<close>

datatype coord_name = CoordX | CoordY

text \<open>
  \<open>steps[k]\<close> as the pair \<open>(x, y)\<close>: the moving coordinate advanced by
  \<open>(k + 1) * move_step\<close>, the other one kept.
\<close>

definition pushwall_step :: "map_object \<Rightarrow> coord_name \<Rightarrow> int \<Rightarrow> int \<Rightarrow> int \<times> int" where
  "pushwall_step obj move_coord_name move_step k =
     (case move_coord_name of
        CoordX \<Rightarrow> (x obj + (k + 1) * move_step, y obj)
      | CoordY \<Rightarrow> (x obj, y obj + (k + 1) * move_step))"

definition move_coord :: "coord_name \<Rightarrow> int \<times> int \<Rightarrow> int" where
  "move_coord move_coord_name s = (case move_coord_name of CoordX \<Rightarrow> fst s | CoordY \<Rightarrow> snd s)"

definition is_valid_pushwall_direction ::
  "int list \<Rightarrow> map_object \<Rightarrow> coord_name \<Rightarrow> int \<Rightarrow> error + bool" where
  "is_valid_pushwall_direction plane0 obj move_coord_name move_step =
     (let s0 = pushwall_step obj move_coord_name move_step 0;
          s1 = pushwall_step obj move_coord_name move_step 1
      in if \<not> (1 \<le> move_coord move_coord_name s1 \<and> move_coord move_coord_name s1 < MAP_SIZE - 1)
         then Inr False
         else case py_get plane0 (fst s0 + snd s0 * MAP_SIZE) of
                Inl e \<Rightarrow> Inl e
              | Inr t0 \<Rightarrow>
                  if \<not> is_dos_floor_code t0 then Inr False
                  else (case py_get plane0 (fst s1 + snd s1 * MAP_SIZE) of
                          Inl e \<Rightarrow> Inl e
                        | Inr t1 \<Rightarrow>
                            (case wall obj of
                               None \<Rightarrow> Inl KeyError
                             | Some w \<Rightarrow> Inr (t1 = w))))"

text \<open>\<open>tiles[0][dst] = tiles[0][src]\<close>\<close>

definition copy_tile :: "int list \<Rightarrow> int \<Rightarrow> int \<Rightarrow> error + int list" where
  "copy_tile plane0 dst src =
     (case py_get plane0 src of Inl e \<Rightarrow> Inl e | Inr t \<Rightarrow> py_set plane0 dst t)"

text \<open>The list \<open>dirs\<close> of the error message of \<open>_fix_pushwall\<close>.\<close>

definition pushwall_dirs :: "int \<Rightarrow> string list" where
  "pushwall_dirs move_dir =
     (if move_dir = 0 then [''none'']
      else (if move_dir AND NORTH \<noteq> 0 then [''north''] else [])
         @ (if move_dir AND SOUTH \<noteq> 0 then [''south''] else [])
         @ (if move_dir AND WEST \<noteq> 0 then [''west''] else [])
         @ (if move_dir AND EAST \<noteq> 0 then [''east''] else []))"

text \<open>
  \<open>_fix_pushwall\<close>. The class attribute
  \<open>DETECT_PUSHWALL_DIRECTION_WHEN_CONVERTING_TO_DOS\<close> is the parameter \<open>detect\<close>. The
  result is the two planes and the messages passed to \<open>logger.error\<close>, each as the
  object's coordinates and the list \<open>dirs\<close>.
\<close>

type_synonym tiles = "int list \<times> int list"
type_synonym pushwall_report = "int \<times> int \<times> string list"

definition fix_pushwall :: "bool \<Rightarrow> tiles \<Rightarrow> map_object \<Rightarrow> error + (tiles \<times> pushwall_report list)" where
  "fix_pushwall detect tiles obj =
     (let index = x obj + y obj * MAP_SIZE in
      case wall obj of
        None \<Rightarrow> Inl KeyError
      | Some w \<Rightarrow>
      case py_set (fst tiles) index w of
        Inl e \<Rightarrow> Inl e
      | Inr p0 \<Rightarrow>
      if \<not> detect then Inr ((p0, snd tiles), [])
      else
      case is_valid_pushwall_direction p0 obj CoordY (-1) of Inl e \<Rightarrow> Inl e | Inr vn \<Rightarrow>
      case is_valid_pushwall_direction p0 obj CoordY 1 of Inl e \<Rightarrow> Inl e | Inr vs \<Rightarrow>
      case is_valid_pushwall_direction p0 obj CoordX (-1) of Inl e \<Rightarrow> Inl e | Inr vw \<Rightarrow>
      case is_valid_pushwall_direction p0 obj CoordX 1 of Inl e \<Rightarrow> Inl e | Inr ve \<Rightarrow>
      let d0 = (0 :: int);
          d1 = (if vn then d0 OR NORTH else d0);
          d2 = (if vs then d1 OR SOUTH else d1);
          d3 = (if vw then d2 OR WEST else d2);
          move_dir = (if ve then d3 OR EAST else d3)
      in if move_dir = NORTH then
           (case copy_tile p0 (index - MAP_SIZE * 2) (index - MAP_SIZE) of
              Inl e \<Rightarrow> Inl e | Inr p0' \<Rightarrow> Inr ((p0', snd tiles), []))
         else if move_dir = SOUTH then
           (case copy_tile p0 (index + MAP_SIZE * 2) (index + MAP_SIZE) of
              Inl e \<Rightarrow> Inl e | Inr p0' \<Rightarrow> Inr ((p0', snd tiles), []))
         else if move_dir = WEST then
           (case copy_tile p0 (index - 2) (index - 1) of
              Inl e \<Rightarrow> Inl e | Inr p0' \<Rightarrow> Inr ((p0', snd tiles), []))
         else if move_dir = EAST then
           (case copy_tile p0 (index + 2) (index + 1) of
              Inl e \<Rightarrow> Inl e | Inr p0' \<Rightarrow> Inr ((p0', snd tiles), []))
         else Inr ((p0, snd tiles), [(x obj, y obj, pushwall_dirs move_dir)]))"

text \<open>The body of the loop \<open>for obj in self._objects\<close> of \<open>generate_dos_map\<close>.\<close>

definition place_object :: "bool \<Rightarrow> tiles \<Rightarrow> map_object \<Rightarrow> error + (tiles \<times> pushwall_report list)" where
  "place_object detect tiles obj =
     (let index = x obj + y obj * MAP_SIZE in
      if DOOR_CODE_START \<le> code obj \<and> code obj \<le> DOOR_CODE_STOP then
        (case py_set (fst tiles) index (code obj) of
           Inl e \<Rightarrow> Inl e
         | Inr p0 \<Rightarrow> Inr ((p0, snd tiles), []))
      else
        (case py_set (snd tiles) index (code obj) of
           Inl e \<Rightarrow> Inl e
         | Inr p1 \<Rightarrow>
             if code obj = PUSHWALL then fix_pushwall detect (fst tiles, p1) obj
             else Inr ((fst tiles, p1), [])))"

fun place_objects ::
  "bool \<Rightarrow> tiles \<Rightarrow> map_object list \<Rightarrow> error + (tiles \<times> pushwall_report list)" where
  "place_objects detect tiles [] = Inr (tiles, [])"
| "place_objects detect tiles (obj # objs) =
     (case place_object detect tiles obj of
        Inl e \<Rightarrow> Inl e
      | Inr (tiles', log) \<Rightarrow>
          (case place_objects detect tiles' objs of
             Inl e \<Rightarrow> Inl e
           | Inr (tiles'', log') \<Rightarrow> Inr (tiles'', log @ log')))"

text \<open>\<open>generate_dos_map\<close>: the dict \<open>{'name', 'tiles'}\<close> and the logged messages.\<close>

definition generate_dos_map ::
  "bool \<Rightarrow> game_map \<Rightarrow> error + ((string \<times> tiles) \<times> pushwall_report list)" where
  "generate_dos_map detect m =
     (case convert_walls (floorcodes m) (walls m) of
        Inl e \<Rightarrow> Inl e
      | Inr p0 \<Rightarrow>
          (case place_objects detect (p0, replicate (length (walls m)) 0) (objects m) of
             Inl e \<Rightarrow> Inl e
           | Inr (tiles, log) \<Rightarrow> Inr ((name m, tiles), log)))"

subsection \<open>The pushwall rule in the specification's words\<close>

text \<open>
  The four candidate directions, the tile \<open>k\<close> steps away in a direction, and the
  validity of a direction as the specification words it: the tile two steps away has
  its coordinate along the moving axis in \<open>[1, 62]\<close>, the tile one step away holds a
  floor code in \<open>[0x6C, 0x8F]\<close>, and the tile two steps away equals the stored wall
  byte. These are compared below with \<open>is_valid_pushwall_direction\<close> and
  \<open>fix_pushwall\<close>.
\<close>

datatype direction = North | South | West | East

fun dir_move :: "direction \<Rightarrow> coord_name \<times> int" where
  "dir_move North = (CoordY, -1)"
| "dir_move South = (CoordY, 1)"
| "dir_move West = (CoordX, -1)"
| "dir_move East = (CoordX, 1)"

fun dir_name :: "direction \<Rightarrow> string" where
  "dir_name North = ''north''"
| "dir_name South = ''south''"
| "dir_name West = ''west''"
| "dir_name East = ''east''"

fun steps_away :: "map_object \<Rightarrow> direction \<Rightarrow> int \<Rightarrow> int \<times> int" where
  "steps_away obj North k = (x obj, y obj - k)"
| "steps_away obj South k = (x obj, y obj + k)"
| "steps_away obj West k = (x obj - k, y obj)"
| "steps_away obj East k = (x obj + k, y obj)"

fun moving_coordinate :: "direction \<Rightarrow> int \<times> int \<Rightarrow> int" where
  "moving_coordinate North p = snd p"
| "moving_coordinate South p = snd p"
| "moving_coordinate West p = fst p"
| "moving_coordinate East p = fst p"

definition tile_index :: "int \<times> int \<Rightarrow> nat" where
  "tile_index p = nat (fst p + snd p * 64)"

definition spec_valid_direction :: "int list \<Rightarrow> map_object \<Rightarrow> int \<Rightarrow> direction \<Rightarrow> bool" where
  "spec_valid_direction plane0 obj w d =
     (1 \<le> moving_coordinate d (steps_away obj d 2)
      \<and> moving_coordinate d (steps_away obj d 2) \<le> 62
      \<and> 0x6C \<le> plane0 ! tile_index (steps_away obj d 1)
      \<and> plane0 ! tile_index (steps_away obj d 1) \<le> 0x8F
      \<and> plane0 ! tile_index (steps_away obj d 2) = w)"


section \<open>soundfont.py: the record lists of the builder\<close>

text \<open>
  The dataclasses of soundfont.py. Field names that several dataclasses share, or that
  are reserved words here, carry a prefix for their record.
\<close>

record preset_header =
  ph_name :: string
  preset :: int
  bank :: int
  preset_bag_index :: int
  library :: int
  genre :: int
  morphology :: int

record bag =
  generator_index :: int
  modulator_index :: int

record modulator_source =
  source_type :: int
  polarity :: int
  direction :: int
  cc_flag :: bool
  source_index :: int

record modulator_list =
  source :: modulator_source
  destination :: int
  mod_amount :: int
  amount_source :: modulator_source
  transform :: int

text \<open>\<open>GeneratorList\<close>; its \<open>AmountType\<close> holds the two bytes already packed.\<close>

record generator_list =
  operator :: int
  gen_amount :: "byte list"

record instrument =
  inst_name :: string
  instrument_bag_index :: int

record sample =
  sh_name :: string
  sh_start :: int
  sh_end :: int
  sh_start_loop :: int
  sh_end_loop :: int
  sh_sample_rate :: int
  original_pitch :: int
  pitch_correction :: int
  sample_link :: int
  sample_type :: int

text \<open>The lists of \<open>SoundFontBuilder\<close> and its sample data.\<close>

record soundfont_builder =
  smpl :: "byte list"
  phdr :: "preset_header list"
  pbag :: "bag list"
  pmod :: "modulator_list list"
  pgen :: "generator_list list"
  inst :: "instrument list"
  ibag :: "bag list"
  imod :: "modulator_list list"
  igen :: "generator_list list"
  shdr :: "sample list"

text \<open>The terminal records that \<open>SoundFontBuilder.__init__\<close> puts in the lists.\<close>

definition terminal_phdr :: preset_header where
  "terminal_phdr =
     \<lparr>ph_name = ''EOP'', preset = 0, bank = 0, preset_bag_index = 0,
      library = 0, genre = 0, morphology = 0\<rparr>"

definition terminal_bag :: bag where
  "terminal_bag = \<lparr>generator_index = 0, modulator_index = 0\<rparr>"

definition empty_source :: modulator_source where
  "empty_source =
     \<lparr>source_type = 0, polarity = 0, direction = 0, cc_flag = False, source_index = 0\<rparr>"

definition terminal_mod :: modulator_list where
  "terminal_mod =
     \<lparr>source = empty_source, destination = 0, mod_amount = 0,
      amount_source = empty_source, transform = 0\<rparr>"

definition terminal_gen :: generator_list where
  "terminal_gen = \<lparr>operator = 0, gen_amount = [0, 0]\<rparr>"

definition terminal_inst :: instrument where
  "terminal_inst = \<lparr>inst_name = ''EOI'', instrument_bag_index = 0\<rparr>"

definition terminal_shdr :: sample where
  "terminal_shdr =
     \<lparr>sh_name = ''EOS'', sh_start = 0, sh_end = 0, sh_start_loop = 0, sh_end_loop = 0,
      sh_sample_rate = 0, original_pitch = 0, pitch_correction = 0, sample_link = 0,
      sample_type = 0\<rparr>"

definition SoundFontBuilder :: soundfont_builder where
  "SoundFontBuilder =
     \<lparr>smpl = [], phdr = [terminal_phdr], pbag = [terminal_bag], pmod = [terminal_mod],
      pgen = [terminal_gen], inst = [terminal_inst], ibag = [terminal_bag],
      imod = [terminal_mod], igen = [terminal_gen], shdr = [terminal_shdr]\<rparr>"

text \<open>
  \<open>list.insert(i, v)\<close>: a negative position counts from the end, and a position beyond
  either end is moved to that end.
\<close>

definition py_insert :: "'a list \<Rightarrow> int \<Rightarrow> 'a \<Rightarrow> 'a list" where
  "py_insert xs i v =
     (let n = int (length xs);
          j = (if i < 0 then max 0 (n + i) else min i n)
      in take (nat j) xs @ [v] @ drop (nat j) xs)"

text \<open>\<open>xs[-1].field = v\<close>, with the field update as a function.\<close>

definition update_last :: "'a list \<Rightarrow> ('a \<Rightarrow> 'a) \<Rightarrow> error + 'a list" where
  "update_last xs f =
     (case py_index xs (-1) of
        None \<Rightarrow> Inl IndexError
      | Some j \<Rightarrow> Inr (xs[nat j := f (xs ! nat j)]))"

text \<open>\<open>_add_records\<close>: the list after the insertions, and the index returned.\<close>

definition add_records :: "'a list \<Rightarrow> 'a list \<Rightarrow> 'a list \<times> int" where
  "add_records record_list records_to_add =
     (foldl (\<lambda>l r. py_insert l (-1) r) record_list records_to_add,
      int (length record_list) - 1)"

definition add_preset :: "soundfont_builder \<Rightarrow> string \<Rightarrow> int \<Rightarrow> int \<Rightarrow> error + (soundfont_builder \<times> int)" where
  "add_preset b nm pr bk =
     (if \<not> (0 < length nm \<and> length nm \<le> 20) then Inl AssertionError
      else if \<not> (0 \<le> pr \<and> pr \<le> 127) then Inl AssertionError
      else if \<not> (0 \<le> bk \<and> bk \<le> 128) then Inl AssertionError
      else
        let bag_index = int (length (pbag b)) - 1;
            phdr' = py_insert (phdr b) (-1)
                      \<lparr>ph_name = nm, preset = pr, bank = bk, preset_bag_index = bag_index,
                       library = 0, genre = 0, morphology = 0\<rparr>
        in Inr (b\<lparr>phdr := phdr'\<rparr>, int (length phdr') - 2))"

definition add_preset_zone ::
  "soundfont_builder \<Rightarrow> generator_list list \<Rightarrow> modulator_list list \<Rightarrow> soundfont_builder" where
  "add_preset_zone b generator modulator =
     (let (pmod', modulator_index) = add_records (pmod b) modulator;
          (pgen', generator_index) = add_records (pgen b) generator;
          (pbag', _) = add_records (pbag b)
                         [\<lparr>generator_index = generator_index, modulator_index = modulator_index\<rparr>]
      in b\<lparr>pmod := pmod', pgen := pgen', pbag := pbag'\<rparr>)"

definition add_instrument :: "soundfont_builder \<Rightarrow> string \<Rightarrow> soundfont_builder \<times> int" where
  "add_instrument b nm =
     (let bag_index = int (length (ibag b)) - 1;
          inst' = py_insert (inst b) (-1) \<lparr>inst_name = nm, instrument_bag_index = bag_index\<rparr>
      in (b\<lparr>inst := inst'\<rparr>, int (length inst') - 2))"

definition add_instrument_zone ::
  "soundfont_builder \<Rightarrow> generator_list list \<Rightarrow> modulator_list list \<Rightarrow> soundfont_builder" where
  "add_instrument_zone b generator modulator =
     (let (igen', generator_index) = add_records (igen b) generator;
          (imod', modulator_index) = add_records (imod b) modulator;
          (ibag', _) = add_records (ibag b)
                         [\<lparr>generator_index = generator_index, modulator_index = modulator_index\<rparr>]
      in b\<lparr>igen := igen', imod := imod', ibag := ibag'\<rparr>)"

definition convert_sample_to_16bit_signed :: "byte list \<Rightarrow> int \<Rightarrow> bool \<Rightarrow> error + byte list" where
  "convert_sample_to_16bit_signed sample_data bits sg =
     (if bits = 16 then (if sg then Inr sample_data else Inl ValueError)
      else if bits = 8 then
        (let sign_delta = (if sg then 0 else 128)
         in Inr (concat (map (\<lambda>b. [0x00, b - sign_delta]) sample_data)))
      else Inl ValueError)"

definition add_sample ::
  "soundfont_builder \<Rightarrow> string \<Rightarrow> byte list \<Rightarrow> int \<Rightarrow> int \<Rightarrow> int \<Rightarrow> int \<Rightarrow> int \<Rightarrow> int \<Rightarrow> int \<Rightarrow> bool
     \<Rightarrow> error + (soundfont_builder \<times> int)" where
  "add_sample b nm data start_loop end_loop rate pitch correction stype bits sg =
     (if \<not> (0 \<le> start_loop \<and> start_loop < int (length data)) then Inl AssertionError
      else if \<not> (0 \<le> end_loop \<and> end_loop \<le> int (length data)) then Inl AssertionError
      else if \<not> (400 \<le> rate \<and> rate \<le> 50000) then Inl AssertionError
      else if \<not> ((0 \<le> pitch \<and> pitch \<le> 127) \<or> pitch = 255) then Inl AssertionError
      else if \<not> (- 128 \<le> correction \<and> correction \<le> 127) then Inl AssertionError
      else if \<not> (bits = 8 \<or> bits = 16) then Inl AssertionError
      else
        (case convert_sample_to_16bit_signed data bits sg of
           Inl e \<Rightarrow> Inl e
         | Inr data' \<Rightarrow>
             let start_index = int (length (smpl b)) div 2;
                 smpl1 = smpl b @ data';
                 end_index = int (length smpl1) div 2;
                 smpl2 = smpl1 @ concat (replicate 46 [0x00, 0x00]);
                 shdr' = py_insert (shdr b) (-1)
                           \<lparr>sh_name = nm, sh_start = start_index, sh_end = end_index,
                            sh_start_loop = start_index + start_loop,
                            sh_end_loop = start_index + end_loop,
                            sh_sample_rate = rate, original_pitch = pitch,
                            pitch_correction = correction, sample_link = 0,
                            sample_type = stype\<rparr>
             in Inr (b\<lparr>smpl := smpl2, shdr := shdr'\<rparr>, int (length shdr') - 2)))"

text \<open>
  The first part of \<open>build\<close>, under its comment \<open>Prepare terminal records\<close>: the six
  assignments to the last records of the lists. The rest of \<open>build\<close> packs the lists
  into chunks.
\<close>

definition prepare_terminal_records :: "soundfont_builder \<Rightarrow> error + soundfont_builder" where
  "prepare_terminal_records b =
     (case update_last (phdr b) (\<lambda>r. r\<lparr>preset_bag_index := int (length (pbag b)) - 1\<rparr>) of
        Inl e \<Rightarrow> Inl e | Inr phdr' \<Rightarrow>
      case update_last (pbag b) (\<lambda>r. r\<lparr>generator_index := int (length (pgen b)) - 1\<rparr>) of
        Inl e \<Rightarrow> Inl e | Inr pbag1 \<Rightarrow>
      case update_last pbag1 (\<lambda>r. r\<lparr>modulator_index := int (length (pmod b)) - 1\<rparr>) of
        Inl e \<Rightarrow> Inl e | Inr pbag' \<Rightarrow>
      case update_last (inst b) (\<lambda>r. r\<lparr>instrument_bag_index := int (length (ibag b)) - 1\<rparr>) of
        Inl e \<Rightarrow> Inl e | Inr inst' \<Rightarrow>
      case update_last (ibag b) (\<lambda>r. r\<lparr>generator_index := int (length (igen b)) - 1\<rparr>) of
        Inl e \<Rightarrow> Inl e | Inr ibag1 \<Rightarrow>
      case update_last ibag1 (\<lambda>r. r\<lparr>modulator_index := int (length (imod b)) - 1\<rparr>) of
        Inl e \<Rightarrow> Inl e | Inr ibag' \<Rightarrow>
      Inr (b\<lparr>phdr := phdr', pbag := pbag', inst := inst', ibag := ibag'\<rparr>))"

subsection \<open>Sequences of builder calls\<close>

text \<open>
  One call of a method of the builder that adds records, with its arguments, and the
  builder after a sequence of such calls (the indices the calls return are dropped).
\<close>

datatype builder_call =
    AddPreset string int int
  | AddPresetZone "generator_list list" "modulator_list list"
  | AddInstrument string
  | AddInstrumentZone "generator_list list" "modulator_list list"
  | AddSample string "byte list" int int int int int int int bool

fun call :: "soundfont_builder \<Rightarrow> builder_call \<Rightarrow> error + soundfont_builder" where
  "call b (AddPreset nm pr bk) = map_sum id fst (add_preset b nm pr bk)"
| "call b (AddPresetZone g m) = Inr (add_preset_zone b g m)"
| "call b (AddInstrument nm) = Inr (fst (add_instrument b nm))"
| "call b (AddInstrumentZone g m) = Inr (add_instrument_zone b g m)"
| "call b (AddSample nm data sl el rate pitch corr stype bits sg) =
     map_sum id fst (add_sample b nm data sl el rate pitch corr stype bits sg)"

fun calls :: "soundfont_builder \<Rightarrow> builder_call list \<Rightarrow> error + soundfont_builder" where
  "calls b [] = Inr b"
| "calls b (c # cs) = (case call b c of Inl e \<Rightarrow> Inl e | Inr b' \<Rightarrow> calls b' cs)"

fun is_add_preset :: "builder_call \<Rightarrow> bool" where
  "is_add_preset (AddPreset nm pr bk) = True"
| "is_add_preset c = False"

fun is_add_preset_zone :: "builder_call \<Rightarrow> bool" where
  "is_add_preset_zone (AddPresetZone g m) = True"
| "is_add_preset_zone c = False"

text \<open>
  A list ends with the terminal record \<open>t\<close>; and a list \<open>xs'\<close> is \<open>xs\<close> with records
  inserted immediately before its last record.
\<close>

definition ends_with :: "'a list \<Rightarrow> 'a \<Rightarrow> bool" where
  "ends_with xs t = (xs \<noteq> [] \<and> last xs = t)"

definition inserted_before_last :: "'a list \<Rightarrow> 'a list \<Rightarrow> bool" where
  "inserted_before_last xs xs' =
     (length xs \<le> length xs' \<and> take (length xs - 1) xs' = butlast xs \<and> last xs' = last xs)"

definition terminated :: "soundfont_builder \<Rightarrow> bool" where
  "terminated b =
     (ends_with (phdr b) terminal_phdr \<and> ends_with (pbag b) terminal_bag
      \<and> ends_with (pmod b) terminal_mod \<and> ends_with (pgen b) terminal_gen
      \<and> ends_with (inst b) terminal_inst \<and> ends_with (ibag b) terminal_bag
      \<and> ends_with (imod b) terminal_mod \<and> ends_with (igen b) terminal_gen
      \<and> ends_with (shdr b) terminal_shdr)"

definition grown :: "soundfont_builder \<Rightarrow> soundfont_builder \<Rightarrow> bool" where
  "grown b b' =
     (inserted_before_last (phdr b) (phdr b') \<and> inserted_before_last (pbag b) (pbag b')
      \<and> inserted_before_last (pmod b) (pmod b') \<and> inserted_before_last (pgen b) (pgen b')
      \<and> inserted_before_last (inst b) (inst b') \<and> inserted_before_last (ibag b) (ibag b')
      \<and> inserted_before_last (imod b) (imod b') \<and> inserted_before_last (igen b) (igen b')
      \<and> inserted_before_last (shdr b) (shdr b'))"

section \<open>riff.py: the layout of a chunk\<close>

lemma length_le_bytes: "length (le_bytes n v) = n"
  by (induction n arbitrary: v) auto

lemma le_uint_le_bytes: "0 \<le> v \<Longrightarrow> v < 256 ^ n \<Longrightarrow> le_uint (le_bytes n v) = v"
proof (induction n arbitrary: v)
  case 0
  then show ?case by simp
next
  case (Suc n)
  have "v div 256 < 256 ^ n" using Suc.prems by (simp add: div_less_iff_less_mult)
  moreover have "0 \<le> v div 256" using Suc.prems by simp
  ultimately have "le_uint (le_bytes n (v div 256)) = v div 256" by (rule Suc.IH[rotated])
  moreover have "uint (word_of_int v :: byte) = v mod 256" by (simp add: uint_word_of_int)
  ultimately show ?case by simp
qed

lemma le_bytes_4:
  "le_bytes 4 v = [word_of_int v, word_of_int (v div 256), word_of_int (v div 65536), word_of_int (v div 16777216)]"
proof -
  have a: "v div 256 div 256 = v div 65536"
    using zdiv_zmult2_eq[of 256 v 256] by simp
  have b: "v div 65536 div 256 = v div 16777216"
    using zdiv_zmult2_eq[of 256 v 65536] by simp
  show ?thesis by (simp add: eval_nat_numeral a b)
qed

lemma le_bytes_2: "le_bytes 2 v = [word_of_int v, word_of_int (v div 256)]"
  by (simp add: eval_nat_numeral)

lemma make_chunk_Inr:
  assumes "length tag = 4" "length data + length data mod 2 < 2 ^ 32"
  shows "make_chunk tag data =
     Inr (tag @ le_bytes 4 (int (length data + length data mod 2)) @
          (if length data mod 2 = 1 then data @ [0] else data))"
  using assms by (auto simp: make_chunk_def uint32_to_bytes_def Let_def add.commute)

text \<open>
  Claim C3 (as amended). For a 4-byte tag and a payload whose padded length fits a u32,
  \<open>make_chunk\<close> returns the tag, then a 4-byte little-endian length, then the payload,
  then one zero byte when the payload length is odd. The length field counts the padding
  byte: it equals the payload length plus the number of padding bytes, because the code
  pads \<open>data\<close> before it takes \<open>len(data)\<close>.
\<close>

theorem make_chunk_layout:
  assumes "length tag = 4" and "length payload + length payload mod 2 < 2 ^ 32"
  shows "\<exists>len pad. make_chunk tag payload = Inr (tag @ len @ payload @ pad)
           \<and> length len = 4
           \<and> pad = (if odd (length payload) then [0] else [])
           \<and> le_uint len = int (length payload) + int (length pad)"
proof -
  let ?n = "length payload + length payload mod 2"
  have "le_uint (le_bytes 4 (int ?n)) = int ?n"
    using assms(2) by (intro le_uint_le_bytes) (simp_all, linarith?)
  then show ?thesis
    using make_chunk_Inr[OF assms] by (auto simp: length_le_bytes odd_iff_mod_2_eq_one)
qed

text \<open>
  Claim C3 as stated says that the length field equals the unpadded payload length. For the
  one-byte payload \<open>b'A'\<close> the field holds 2, not 1.
\<close>

theorem make_chunk_length_field_counterexample:
  "make_chunk [0x66, 0x6D, 0x74, 0x20] [0x41] = Inr ([0x66, 0x6D, 0x74, 0x20] @ [2, 0, 0, 0] @ [0x41, 0])
   \<and> le_uint [2, 0, 0, 0] \<noteq> int (length [0x41 :: byte])"
  by (simp add: make_chunk_def uint32_to_bytes_def le_bytes_4)

theorem make_chunk_layout_witness:
  "make_chunk [0x66, 0x6D, 0x74, 0x20] [0x41, 0x42, 0x43] = Inr [0x66, 0x6D, 0x74, 0x20, 4, 0, 0, 0, 0x41, 0x42, 0x43, 0]"
  using make_chunk_layout[of "[0x66, 0x6D, 0x74, 0x20]" "[0x41, 0x42, 0x43]"]
  apply (simp add: make_chunk_def uint32_to_bytes_def le_bytes_4)
  done

section \<open>riff.py: chunk lengths are even\<close>

lemma make_chunk_Inr_even: "make_chunk t p = Inr c \<Longrightarrow> even (length c)"
  by (auto simp: make_chunk_def uint32_to_bytes_def Let_def length_le_bytes split: if_splits)

lemma make_chunks_concat_even:
  "map (\<lambda>(t, p). make_chunk t p) ins = map Inr cs \<Longrightarrow> even (length (concat cs))"
proof (induction cs arbitrary: ins)
  case Nil
  then show ?case by simp
next
  case (Cons c cs)
  then obtain i ins' where ins: "ins = i # ins'" by (cases ins) auto
  obtain t p where i: "i = (t, p)" by (cases i)
  from Cons.prems ins i have "make_chunk t p = Inr c" and "map (\<lambda>(t, p). make_chunk t p) ins' = map Inr cs"
    by auto
  then show ?case using Cons.IH make_chunk_Inr_even by auto
qed

text \<open>
  Claim C10. For a 4-byte tag and a payload whose padded length fits a u32, the chunk that
  \<open>make_chunk\<close> returns has even length: 8 + payload length when that is even, 8 + payload
  length + 1 when it is odd. Hence in any concatenation of chunks produced by
  \<open>make_chunk\<close> every chunk starts at an even offset: the first \<open>k\<close> chunks together have
  even length, for every \<open>k\<close>.
\<close>

theorem make_chunk_even_length:
  assumes "length tag = 4" and "length payload + length payload mod 2 < 2 ^ 32"
    and "map (\<lambda>(t, p). make_chunk t p) ins = map Inr cs" and "k \<le> length cs"
  shows "(\<exists>out. make_chunk tag payload = Inr out
            \<and> length out = (if even (length payload) then 8 + length payload
                             else 8 + length payload + 1)
            \<and> even (length out))
       \<and> even (length (concat (take k cs)))"
proof -
  have "map (\<lambda>(t, p). make_chunk t p) (take k ins) = map Inr (take k cs)"
    using assms(3) by (simp add: take_map[symmetric])
  then have "even (length (concat (take k cs)))" by (rule make_chunks_concat_even)
  moreover have "\<exists>out. make_chunk tag payload = Inr out
            \<and> length out = (if even (length payload) then 8 + length payload
                             else 8 + length payload + 1)
            \<and> even (length out)"
    using make_chunk_Inr[OF assms(1,2)] assms(1)
    by (auto simp: length_le_bytes odd_iff_mod_2_eq_one)
  ultimately show ?thesis by blast
qed

theorem make_chunk_even_length_witness:
  "(\<exists>out. make_chunk [0x66, 0x6D, 0x74, 0x20] [0x41] = Inr out \<and> length out = 10 \<and> even (length out))
   \<and> even (length (concat (take 1 [[0x66, 0x6D, 0x74, 0x20, 2, 0, 0, 0, 0x41, 0],
                                      [0x66, 0x6D, 0x74, 0x20, 0, 0, 0, 0 :: byte]])))"
  using make_chunk_even_length[of "[0x66, 0x6D, 0x74, 0x20]" "[0x41]"
          "[([0x66, 0x6D, 0x74, 0x20], [0x41]), ([0x66, 0x6D, 0x74, 0x20], [])]"
          "[[0x66, 0x6D, 0x74, 0x20, 2, 0, 0, 0, 0x41, 0], [0x66, 0x6D, 0x74, 0x20, 0, 0, 0, 0]]" 1]
  by (simp add: make_chunk_def uint32_to_bytes_def le_bytes_4)

section \<open>gamemap.py: wall conversion\<close>

lemmas gamemap_consts =
  MAP_SIZE_def PLANE_COUNT_def FLOOR_CODE_START_def FLOOR_CODE_STOP_def DOOR_CODE_START_def
  DOOR_CODE_STOP_def PUSHWALL_def NORTH_def SOUTH_def WEST_def EAST_def

lemma convert_wall_Inr:
  assumes "length fcs = 64" "0 \<le> c"
  shows "convert_wall fcs c =
     Inr (if c \<ge> 0x80 then c - 0x80 else if c < 64 then 0x6C + fcs ! nat c else c)"
  using assms by (simp add: convert_wall_def py_get_def py_index_def FLOOR_CODE_START_def)

lemma convert_walls_Inr:
  assumes "length fcs = 64" "\<forall>c \<in> set ws. 0 \<le> c"
  shows "convert_walls fcs ws =
     Inr (map (\<lambda>c. if c \<ge> 0x80 then c - 0x80 else if c < 64 then 0x6C + fcs ! nat c else c) ws)"
  using assms by (induction ws) (simp_all add: convert_wall_Inr)

lemma place_object_untouched:
  assumes "place_object False (p0, p1) obj = Inr ((q0, q1), log)"
    and "0 \<le> x obj" "0 \<le> y obj" "nat (x obj + y obj * 64) \<noteq> i"
  shows "q0 ! i = p0 ! i \<and> length q0 = length p0"
  using assms
  by (auto simp: place_object_def fix_pushwall_def py_set_def py_index_def gamemap_consts Let_def
      split: if_splits sum.splits option.splits)

lemma place_objects_untouched:
  assumes "place_objects False (p0, p1) objs = Inr ((q0, q1), log)"
    and "\<forall>obj \<in> set objs. 0 \<le> x obj \<and> 0 \<le> y obj \<and> nat (x obj + y obj * 64) \<noteq> i"
  shows "q0 ! i = p0 ! i \<and> length q0 = length p0"
  using assms
proof (induction objs arbitrary: p0 p1 log)
  case Nil
  then show ?case by simp
next
  case (Cons obj objs)
  from Cons.prems(1) obtain r0 r1 l1 l2 where
    a: "place_object False (p0, p1) obj = Inr ((r0, r1), l1)"
    and b: "place_objects False (r0, r1) objs = Inr ((q0, q1), l2)"
    by (auto split: sum.splits)
  from place_object_untouched[OF a, where i = i] Cons.prems(2) have "r0 ! i = p0 ! i \<and> length r0 = length p0"
    by simp
  moreover from Cons.IH[OF b] Cons.prems(2) have "q0 ! i = r0 ! i \<and> length q0 = length r0"
    by simp
  ultimately show ?case by simp
qed

text \<open>
  Claim C8. For a map whose wall codes are unsigned bytes and whose table holds 64 floor
  codes, the wall conversion of \<open>generate_dos_map\<close> succeeds and gives plane 0 one value
  per tile: for the native code \<open>c\<close> of tile \<open>i\<close> the value \<open>v\<close> is \<open>c - 0x80\<close> when
  \<open>c \<ge> 0x80\<close>, \<open>0x6C + floor_codes[c]\<close> when \<open>c < 64\<close>, and \<open>c\<close> unchanged when
  \<open>64 \<le> c < 0x80\<close>. \<open>generate_dos_map\<close> places the map's objects on that plane 0 and a
  plane 1 of zeros; for a map without objects it returns exactly these two planes; and
  with direction detection off, a tile at which no object lies keeps its converted value
  in the plane 0 that \<open>generate_dos_map\<close> returns.
\<close>

theorem generate_dos_map_walls:
  assumes "length (floorcodes m) = 64" and "\<forall>c \<in> set (walls m). 0 \<le> c"
    and "i < length (walls m)" and "c = walls m ! i"
    and "v = (if c \<ge> 0x80 then c - 0x80 else if c < 64 then 0x6C + floorcodes m ! nat c else c)"
  shows "\<exists>p0. convert_walls (floorcodes m) (walls m) = Inr p0 \<and> length p0 = length (walls m)
           \<and> p0 ! i = v
           \<and> generate_dos_map detect m =
               (case place_objects detect (p0, replicate (length (walls m)) 0) (objects m) of
                  Inl e \<Rightarrow> Inl e
                | Inr (tiles, log) \<Rightarrow> Inr ((name m, tiles), log))
           \<and> (objects m = [] \<longrightarrow>
                generate_dos_map detect m =
                  Inr ((name m, (p0, replicate (length (walls m)) 0)), []))
           \<and> ((\<forall>obj \<in> set (objects m).
                   0 \<le> x obj \<and> 0 \<le> y obj \<and> nat (x obj + y obj * 64) \<noteq> i)
                \<and> generate_dos_map False m = Inr ((nm, (q0, q1)), log) \<longrightarrow>
                q0 ! i = v)"
proof -
  let ?p0 = "map (\<lambda>c. if c \<ge> 0x80 then c - 0x80 else if c < 64 then 0x6C + floorcodes m ! nat c else c) (walls m)"
  have cw: "convert_walls (floorcodes m) (walls m) = Inr ?p0"
    by (rule convert_walls_Inr[OF assms(1,2)])
  have at: "?p0 ! i = v" using assms(3,4,5) by simp
  have g: "generate_dos_map detect m =
               (case place_objects detect (?p0, replicate (length (walls m)) 0) (objects m) of
                  Inl e \<Rightarrow> Inl e
                | Inr (tiles, log) \<Rightarrow> Inr ((name m, tiles), log))" for detect
    by (simp add: generate_dos_map_def cw)
  have e: "objects m = [] \<longrightarrow>
                generate_dos_map detect m =
                  Inr ((name m, (?p0, replicate (length (walls m)) 0)), [])"
    by (simp add: g)
  have u: "q0 ! i = v"
    if o: "\<forall>obj \<in> set (objects m). 0 \<le> x obj \<and> 0 \<le> y obj \<and> nat (x obj + y obj * 64) \<noteq> i"
      and r: "generate_dos_map False m = Inr ((nm, (q0, q1)), log)"
  proof -
    from r have "place_objects False (?p0, replicate (length (walls m)) 0) (objects m) = Inr ((q0, q1), log)"
      unfolding g by (auto split: sum.splits)
    from place_objects_untouched[OF this o] at show ?thesis by simp
  qed
  from cw at g e u show ?thesis by (intro exI[of _ ?p0]) simp
qed

theorem generate_dos_map_walls_witness:
  "generate_dos_map False
     \<lparr>name = ''M'', floorcodes = replicate 64 3, walls = [0x85, 5, 0x50], objects = []\<rparr>
     = Inr ((''M'', ([5, 0x6F, 0x50], [0, 0, 0])), [])
   \<and> generate_dos_map False
     \<lparr>name = ''M'', floorcodes = replicate 64 3, walls = [0x85, 5, 0x50],
      objects = [\<lparr>x = 2, y = 0, code = 0x5D, wall = None\<rparr>]\<rparr>
     = Inr ((''M'', ([5, 0x6F, 0x5D], [0, 0, 0])), [])"
proof -
  let ?m = "\<lparr>name = ''M'', floorcodes = replicate 64 3, walls = [0x85, 5, 0x50], objects = []\<rparr>"
  let ?n = "\<lparr>name = ''M'', floorcodes = replicate 64 3, walls = [0x85, 5, 0x50],
      objects = [\<lparr>x = 2, y = 0, code = 0x5D, wall = None\<rparr>]\<rparr>"
  have n: "generate_dos_map False ?n = Inr ((''M'', ([5, 0x6F, 0x5D], [0, 0, 0])), [])"
    by (simp add: generate_dos_map_def convert_wall_def py_get_def py_index_def place_object_def
        py_set_def gamemap_consts)
  from generate_dos_map_walls[of ?m 1 5 "0x6F" False "''M''" "[5, 0x6F, 0x50]" "[0, 0, 0]" "[]"]
       generate_dos_map_walls[of ?n 1 5 "0x6F" False "''M''" "[5, 0x6F, 0x5D]" "[0, 0, 0]" "[]"] n
  show ?thesis
    by (auto simp: convert_wall_def py_get_def py_index_def gamemap_consts)
qed

text \<open>
  The walls and floor codes that \<open>_read_tiles\<close> returns meet the assumptions of the
  theorem above: 4096 wall codes and 64 floor codes, all of them unsigned bytes.
\<close>

lemma read_ubytes_wellformed:
  "read_ubytes f pos n = Inr (bs, pos') \<Longrightarrow>
     length bs = n \<and> pos' = pos + n \<and> (\<forall>c \<in> set bs. 0 \<le> c \<and> c < 256)"
proof (induction n arbitrary: pos bs)
  case 0
  then show ?case by simp
next
  case (Suc n)
  from Suc.prems obtain b bs' where p: "pos < length f" and b: "b = uint (f ! pos)"
    and r: "read_ubytes f (pos + 1) n = Inr (bs', pos')" and bs: "bs = b # bs'"
    by (auto simp: read_ubyte_def split: if_splits sum.splits)
  have "0 \<le> b \<and> b < 256" unfolding b using uint_bounded[of "f ! pos"] by simp
  with Suc.IH[OF r] bs show ?case by auto
qed

lemma read_tiles_wellformed:
  assumes "read_tiles f pos = Inr (ws, fcs, pos')"
  shows "length ws = 4096 \<and> length fcs = 64 \<and> (\<forall>c \<in> set ws. 0 \<le> c \<and> c < 256)
       \<and> (\<forall>c \<in> set fcs. 0 \<le> c \<and> c < 256)"
proof -
  from assms obtain p1 where a: "read_ubytes f pos 4096 = Inr (ws, p1)"
    and b: "read_ubytes f p1 64 = Inr (fcs, pos')"
    by (auto simp: read_tiles_def MAP_SIZE_def split: sum.splits)
  from read_ubytes_wellformed[OF a] read_ubytes_wellformed[OF b] show ?thesis by simp
qed


section \<open>gamemap.py: reading objects\<close>

text \<open>
  What the loop body of \<open>_read_objects\<close> does with the coordinate bytes \<open>x0, y0\<close> of an
  object: a coordinate of 64 or more is reduced by 64 once, and the warning is logged
  only when a coordinate is above 64.
\<close>

lemma read_object_correction:
  assumes "read_object f pos = Inr (obj, w, pos')"
    and "x0 = uint (f ! pos)" and "y0 = uint (f ! (pos + 1))"
  shows "x obj = (if x0 \<ge> 64 then x0 - 64 else x0)
       \<and> y obj = (if y0 \<ge> 64 then y0 - 64 else y0)
       \<and> w = (if x0 > 64 \<or> y0 > 64 then Some (x0, y0) else None)"
  using assms uint_ge_0[of "f ! pos"] uint_ge_0[of "f ! (pos + 1)"]
  by (auto simp: read_object_def read_ubyte_def Let_def MAP_SIZE_def split: if_splits sum.splits)


text \<open>
  Claim C5 at its own example: an object list with one object at \<open>x = 64, y = 10\<close>. The
  object is kept and its \<open>x\<close> is corrected to 0, but no warning is logged: the test before
  the warning is \<open>0 <= x <= 64\<close>, while the correction applies from \<open>x >= 64\<close>.
\<close>

theorem read_objects_x64_no_warning:
  "read_objects [1, 0, 0, 0, 0, 0, 0, 0, 64, 10, 0x20] 0
     = Inr ([\<lparr>x = 0, y = 10, code = 0x20, wall = None\<rparr>], [], 11)"
  by (simp add: read_objects_def read_ushort_def read_object_def read_ubyte_def gamemap_consts)

section \<open>gamemap.py: pushwalls\<close>

lemma py_get_nonneg: "0 \<le> i \<Longrightarrow> i < int (length xs) \<Longrightarrow> py_get xs i = Inr (xs ! nat i)"
  by (simp add: py_get_def py_index_def)

lemma py_set_nonneg: "0 \<le> i \<Longrightarrow> i < int (length xs) \<Longrightarrow> py_set xs i v = Inr (xs[nat i := v])"
  by (simp add: py_set_def py_index_def)

lemma is_valid_pushwall_direction_eq:
  assumes "length p = 4096" "0 \<le> x obj" "x obj < 64" "0 \<le> y obj" "y obj < 64"
    "wall obj = Some w"
  shows "is_valid_pushwall_direction p obj (fst (dir_move d)) (snd (dir_move d))
           = Inr (spec_valid_direction p obj w d)"
proof (cases d)
  case North
  then show ?thesis using assms
    by (auto simp: is_valid_pushwall_direction_def spec_valid_direction_def pushwall_step_def
        move_coord_def tile_index_def is_dos_floor_code_def gamemap_consts py_get_nonneg Let_def)
next
  case South
  then show ?thesis using assms
    by (auto simp: is_valid_pushwall_direction_def spec_valid_direction_def pushwall_step_def
        move_coord_def tile_index_def is_dos_floor_code_def gamemap_consts py_get_nonneg Let_def)
next
  case West
  then show ?thesis using assms
    by (auto simp: is_valid_pushwall_direction_def spec_valid_direction_def pushwall_step_def
        move_coord_def tile_index_def is_dos_floor_code_def gamemap_consts py_get_nonneg Let_def)
next
  case East
  then show ?thesis using assms
    by (auto simp: is_valid_pushwall_direction_def spec_valid_direction_def pushwall_step_def
        move_coord_def tile_index_def is_dos_floor_code_def gamemap_consts py_get_nonneg Let_def)
qed

lemma copy_tile_valid:
  assumes "length p = 4096" "0 \<le> x obj" "x obj < 64" "0 \<le> y obj" "y obj < 64"
    and "spec_valid_direction p obj w d"
  shows "copy_tile p (x obj + y obj * MAP_SIZE + (case d of North \<Rightarrow> - (MAP_SIZE * 2) | South \<Rightarrow> MAP_SIZE * 2 | West \<Rightarrow> - 2 | East \<Rightarrow> 2))
                     (x obj + y obj * MAP_SIZE + (case d of North \<Rightarrow> - MAP_SIZE | South \<Rightarrow> MAP_SIZE | West \<Rightarrow> - 1 | East \<Rightarrow> 1))
         = Inr (p[tile_index (steps_away obj d 2) := p ! tile_index (steps_away obj d 1)])"
  using assms
  by (cases d) (auto simp: copy_tile_def spec_valid_direction_def tile_index_def gamemap_consts
      py_get_nonneg py_set_nonneg algebra_simps)

lemma fix_pushwall_detect:
  assumes wf: "length p0 = 4096" "0 \<le> x obj" "x obj < 64" "0 \<le> y obj" "y obj < 64"
      "wall obj = Some w"
    and p0w: "p0w = p0[tile_index (x obj, y obj) := w]"
    and valid: "valid = filter (spec_valid_direction p0w obj w) [North, South, West, East]"
  shows "fix_pushwall True (p0, p1) obj =
     Inr (case valid of
            [d] \<Rightarrow> ((p0w[tile_index (steps_away obj d 2) := p0w ! tile_index (steps_away obj d 1)], p1), [])
          | _ \<Rightarrow> ((p0w, p1), [(x obj, y obj, if valid = [] then [''none''] else map dir_name valid)]))"
proof -
  have len: "length p0w = 4096" using wf p0w by simp
  note V = is_valid_pushwall_direction_eq[OF len wf(2-6)]
  have VN: "is_valid_pushwall_direction p0w obj CoordY (-1) = Inr (spec_valid_direction p0w obj w North)"
    using V[of North] by simp
  have VS: "is_valid_pushwall_direction p0w obj CoordY 1 = Inr (spec_valid_direction p0w obj w South)"
    using V[of South] by simp
  have VW: "is_valid_pushwall_direction p0w obj CoordX (-1) = Inr (spec_valid_direction p0w obj w West)"
    using V[of West] by simp
  have VE: "is_valid_pushwall_direction p0w obj CoordX 1 = Inr (spec_valid_direction p0w obj w East)"
    using V[of East] by simp
  note C = copy_tile_valid[OF len wf(2-5)]
  have set0: "py_set p0 (x obj + y obj * MAP_SIZE) w = Inr p0w"
    using wf p0w by (simp add: py_set_nonneg tile_index_def gamemap_consts)
  show ?thesis
  proof (cases "spec_valid_direction p0w obj w North"; cases "spec_valid_direction p0w obj w South";
         cases "spec_valid_direction p0w obj w West"; cases "spec_valid_direction p0w obj w East")
  qed (use C[of w North] C[of w South] C[of w West] C[of w East] in
        \<open>simp_all add: fix_pushwall_def wf(6) set0 VN VS VW VE valid pushwall_dirs_def
           NORTH_def SOUTH_def WEST_def EAST_def\<close>)
qed

text \<open>
  Claim C7, for a pushwall object on the 64 x 64 map with direction detection switched
  on (wad.py switches it on before it converts a map). \<open>p0w\<close> is plane 0 once the
  object's wall byte is stored at its own tile, which is the plane the directions are
  tested on. The code's test of a direction is the specification's validity. When the
  valid directions are exactly \<open>[d]\<close>, the tile two steps away in direction \<open>d\<close> receives
  the value of the tile one step away and nothing is logged. When there is no valid
  direction or more than one, the planes stay as they are and one message is logged with
  the names of the valid directions (\<open>none\<close> when there is none).
\<close>

theorem fix_pushwall_spec:
  assumes "length p0 = 4096" and "0 \<le> x obj" and "x obj < 64" and "0 \<le> y obj" and "y obj < 64"
    and "wall obj = Some w"
    and "p0w = p0[tile_index (x obj, y obj) := w]"
    and "valid = filter (spec_valid_direction p0w obj w) [North, South, West, East]"
  shows "is_valid_pushwall_direction p0w obj (fst (dir_move d)) (snd (dir_move d))
           = Inr (spec_valid_direction p0w obj w d)
       \<and> (valid = [d] \<longrightarrow>
            fix_pushwall True (p0, p1) obj =
              Inr ((p0w[tile_index (steps_away obj d 2) := p0w ! tile_index (steps_away obj d 1)],
                    p1), []))
       \<and> (length valid \<noteq> 1 \<longrightarrow>
            fix_pushwall True (p0, p1) obj =
              Inr ((p0w, p1),
                   [(x obj, y obj, if valid = [] then [''none''] else map dir_name valid)]))"
proof -
  have len: "length p0w = 4096" using assms(1,7) by simp
  have a: "is_valid_pushwall_direction p0w obj (fst (dir_move d)) (snd (dir_move d))
           = Inr (spec_valid_direction p0w obj w d)"
    by (rule is_valid_pushwall_direction_eq[OF len assms(2-6)])
  note F = fix_pushwall_detect[OF assms, of p1]
  have b: "valid = [d] \<longrightarrow>
            fix_pushwall True (p0, p1) obj =
              Inr ((p0w[tile_index (steps_away obj d 2) := p0w ! tile_index (steps_away obj d 1)],
                    p1), [])"
    using F by simp
  have c: "length valid \<noteq> 1 \<longrightarrow>
            fix_pushwall True (p0, p1) obj =
              Inr ((p0w, p1),
                   [(x obj, y obj, if valid = [] then [''none''] else map dir_name valid)])"
    using F by (cases valid; cases "tl valid") auto
  from a b c show ?thesis by blast
qed

theorem fix_pushwall_spec_witness:
  "fix_pushwall True ((replicate 4096 1)[651 := 0x6C], replicate 4096 0)
       \<lparr>x = 10, y = 10, code = 0x62, wall = Some 1\<rparr>
     = Inr (((replicate 4096 1)[651 := 0x6C, 650 := 1, 652 := 0x6C], replicate 4096 0), [])
   \<and> fix_pushwall True ((replicate 4096 1)[651 := 0x6C, 649 := 0x6C], replicate 4096 0)
       \<lparr>x = 10, y = 10, code = 0x62, wall = Some 1\<rparr>
     = Inr (((replicate 4096 1)[651 := 0x6C, 649 := 0x6C, 650 := 1], replicate 4096 0),
            [(10, 10, [''west'', ''east''])])"
  using fix_pushwall_spec[of "(replicate 4096 1)[651 := 0x6C]"
          "\<lparr>x = 10, y = 10, code = 0x62, wall = Some 1\<rparr>" 1
          "(replicate 4096 1)[651 := 0x6C, 650 := 1]"
          "[East]" East "replicate 4096 0"]
        fix_pushwall_spec[of "(replicate 4096 1)[651 := 0x6C, 649 := 0x6C]"
          "\<lparr>x = 10, y = 10, code = 0x62, wall = Some 1\<rparr>" 1
          "(replicate 4096 1)[651 := 0x6C, 649 := 0x6C, 650 := 1]"
          "[West, East]" East "replicate 4096 0"]
  by (simp add: spec_valid_direction_def tile_index_def)

section \<open>gamemap.py: placing objects\<close>









section \<open>wav.py: the declared chunk size\<close>

lemma write_head:
  assumes "write_all (Inr t # write_int v # ws) = Inr out" "length t = 4" "0 \<le> v"
  shows "chunk_size_field out = v"
proof -
  from assms(1) obtain rest where v: "write_int v = Inr (le_bytes 4 v)" and inr: "- (2 ^ 31) \<le> v \<and> v < 2 ^ 31"
    and out: "out = t @ le_bytes 4 v @ rest"
    by (auto simp: write_int_def split: sum.splits if_splits)
  have "le_uint (le_bytes 4 v) = v" using inr assms(3) by (intro le_uint_le_bytes) simp_all
  then show ?thesis using out assms(2) by (simp add: chunk_size_field_def length_le_bytes)
qed

lemma write_head_app:
  assumes "write_all ((Inr t # write_int v # xs) @ ys) = Inr out" "length t = 4" "0 \<le> v"
  shows "chunk_size_field out = v"
  using write_head[of t v "xs @ ys"] assms by simp

text \<open>
  Claim C4 (as amended). Whenever \<open>Writer.write\<close> succeeds, the declared top-level chunk
  size is 36 plus the PCM payload size (the padded number of samples times the bytes per
  sample) plus, when a loop offset is given, 66 for the cue chunk with its label list
  (36 for the cue chunk and 30 for the list) if that group is included and 68 for the
  sampler chunk if it is included.
\<close>

theorem write_chunk_size:
  assumes "Writer_write include_cue include_smpl w sound_data loop_offset = Inr out"
    and "0 \<le> bytes_per_sample w"
    and "padded = (if bytes_per_sample w = 1 \<and> odd (length sound_data)
                   then length sound_data + 1 else length sound_data)"
  shows "chunk_size_field out =
           36 + int padded * bytes_per_sample w
           + (if loop_offset \<noteq> None \<and> include_cue then 36 + 30 else 0)
           + (if loop_offset \<noteq> None \<and> include_smpl then 68 else 0)"
proof -
  let ?cs = "36 + int padded * bytes_per_sample w
           + (if loop_offset \<noteq> None \<and> include_cue then 36 + 30 else 0)
           + (if loop_offset \<noteq> None \<and> include_smpl then 68 else 0)"
  define sd where "sd = (if bytes_per_sample w = 1 \<and> length sound_data mod 2 = 1
             then sound_data @ [if signed w then 0x00 else 0x80] else sound_data)"
  define c0 where "c0 = 36 + int (length sd) * bytes_per_sample w"
  define c1 where "c1 = (if loop_offset \<noteq> None \<and> include_cue then c0 + 36 + 30 else c0)"
  define c2 where "c2 = (if loop_offset \<noteq> None \<and> include_smpl then c1 + 68 else c1)"
  have len: "length sd = padded"
    unfolding sd_def assms(3) by (simp add: odd_iff_mod_2_eq_one)
  have eq: "c2 = ?cs" unfolding c2_def c1_def c0_def len by simp
  have nonneg: "0 \<le> c2" unfolding eq using assms(2) by simp
  have "chunk_size_field out = c2"
    unfolding c2_def c1_def c0_def sd_def
    by (rule write_head_app[OF assms(1)[unfolded Writer_write_def Let_def]])
       (simp add: tag_RIFF_def, rule nonneg[unfolded c2_def c1_def c0_def sd_def])
  then show ?thesis unfolding eq .
qed

text \<open>
  Claim C4 as stated: 200 mono 16-bit samples with \<open>loop_offset = 100\<close> and both loop
  chunks included. The declared chunk size is 570, not \<open>36 + 400 + 30 + 68 = 534\<close>.
\<close>

theorem write_chunk_size_counterexample:
  "map_sum id chunk_size_field
     (Writer_write True True (Writer 22050 1 16 True) (replicate 200 0) (Some 100)) = Inr 570
   \<and> map_sum id chunk_size_field
     (Writer_write True True (Writer 22050 1 16 True) (replicate 200 0) (Some 100)) \<noteq> Inr (36 + 400 + 30 + 68)"
  by (simp add: Writer_write_def Writer_def write_int_def write_short_def floordiv_def
      chunk_size_field_def tag_RIFF_def le_bytes_4)

theorem write_chunk_size_witness:
  "map_sum id chunk_size_field
     (Writer_write True True (Writer 11025 1 8 False) [1, 2, 3] (Some 1)) = Inr (36 + 4 + 66 + 68)"
proof -
  obtain out where out: "Writer_write True True (Writer 11025 1 8 False) [1, 2, 3] (Some 1) = Inr out"
    by (simp add: Writer_write_def Writer_def write_int_def write_short_def floordiv_def)
  from write_chunk_size[OF out, of 4] show ?thesis
    unfolding out by (simp add: Writer_def)
qed

section \<open>wav.py: the declared chunk size is the size of the file\<close>

text \<open>
  For 8-bit and 16-bit writers the declared chunk size is the number of bytes that follow
  it in the file: the sizes that \<open>Writer.write\<close> adds up are the sizes of what it writes.
\<close>

lemma write_all_length:
  "write_all ws = Inr out \<Longrightarrow> length out = sum_list (map written ws) \<and> (\<forall>w \<in> set ws. \<not> isl w)"
  by (induction ws arbitrary: out) (auto simp: written_def  split: sum.splits)

lemma written_simps:
  "written (Inr b) = length b"
  "\<not> isl (write_int v) \<Longrightarrow> written (write_int v) = 4"
  "\<not> isl (write_short v) \<Longrightarrow> written (write_short v) = 2"
  "\<not> isl (case floordiv a c of Inl e \<Rightarrow> Inl e | Inr p \<Rightarrow> write_int p)
     \<Longrightarrow> written (case floordiv a c of Inl e \<Rightarrow> Inl e | Inr p \<Rightarrow> write_int p) = 4"
  by (auto simp: written_def write_int_def write_short_def floordiv_def length_le_bytes
      split: if_splits sum.splits)

lemma length_pack_samples:
  "bits = 8 \<or> bits = 16 \<Longrightarrow> int (length (pack_samples bits sd)) = int (length sd) * (bits div 8)"
  by (auto simp: pack_samples_def length_concat comp_def length_le_bytes sum_list_triv)

lemma write_size_consistent:
  assumes w: "Writer_write include_cue include_smpl (Writer sr ch bits sg) sound_data loop_offset = Inr out"
    and bits: "bits = 8 \<or> bits = 16"
  shows "chunk_size_field out = int (length out) - 8"
proof -
  let ?w = "Writer sr ch bits sg"
  have bps: "0 \<le> bytes_per_sample ?w" "bytes_per_sample ?w = bits div 8"
    using bits by (auto simp: Writer_def)
  note cs = write_chunk_size[OF w bps(1) refl]
  define sd where "sd = (if bytes_per_sample ?w = 1 \<and> length sound_data mod 2 = 1
             then sound_data @ [if signed ?w then 0x00 else 0x80] else sound_data)"
  have len_sd: "length sd = (if bytes_per_sample ?w = 1 \<and> odd (length sound_data)
                   then length sound_data + 1 else length sound_data)"
    unfolding sd_def by (simp add: odd_iff_mod_2_eq_one)
  note L = write_all_length[OF w[unfolded Writer_write_def Let_def, folded sd_def]]
  have tags: "length tag_RIFF = 4" "length tag_WAVE = 4" "length tag_fmt = 4" "length tag_data = 4"
    "length tag_smpl = 4" "length tag_cue = 4" "length tag_LIST = 4" "length tag_adtl = 4"
    "length tag_labl = 4" "length loop_label = 6"
    by (simp_all add: tag_RIFF_def tag_WAVE_def tag_fmt_def tag_data_def tag_smpl_def tag_cue_def
        tag_LIST_def tag_adtl_def tag_labl_def loop_label_def)
  have ps: "int (length (pack_samples (bits_per_sample ?w) sd)) = int (length sd) * bytes_per_sample ?w"
    using length_pack_samples[OF bits, of sd] by (simp add: Writer_def)
  have "int (length out) = 8 + (36 + int (length sd) * bytes_per_sample ?w
           + (if loop_offset \<noteq> None \<and> include_cue then 36 + 30 else 0)
           + (if loop_offset \<noteq> None \<and> include_smpl then 68 else 0))"
    using L ps
    by (cases loop_offset; cases include_cue; cases include_smpl)
       (simp_all add: written_simps tags del: of_nat_add of_nat_mult)
  then show ?thesis unfolding cs len_sd[symmetric] by simp
qed

section \<open>wad.py: the decompressor against the specification\<close>

lemma decompress_loop_group:
  "position < length data \<Longrightarrow>
     decompress_loop data position flag 0 out
       = decompress_loop data (position + 1) (uint (data ! position)) 8 out"
  by (subst decompress_loop.simps) simp

lemma decompress_loop_flag_irrelevant:
  "decompress_loop data position flag 0 out = decompress_loop data position 0 0 out"
  by (subst decompress_loop.simps, subst (2) decompress_loop.simps) simp

lemma flag_test: "(flag AND 1 \<noteq> 0) = bit (flag :: int) 0"
  by (simp add: and_one_eq bit_0 mod_2_eq_odd)

lemma decompress_loop_literal:
  "0 < bits \<Longrightarrow> \<not> bit flag 0 \<Longrightarrow> position < length data \<Longrightarrow>
     decompress_loop data position flag bits out
       = decompress_loop data (position + 1) (drop_bit 1 flag) (bits - 1) (out @ [data ! position])"
  by (subst decompress_loop.simps) (simp add: flag_test)

lemma copy_run_spec_copy:
  "0 < offset \<Longrightarrow> offset \<le> length out \<Longrightarrow>
     copy_run out (int (length out) - int offset) n = Inr (spec_copy out offset n)"
proof (induction n arbitrary: out)
  case 0
  then show ?case by simp
next
  case (Suc n)
  have g: "py_get out (int (length out) - int offset) = Inr (out ! (length out - offset))"
    using Suc.prems by (simp add: py_get_def py_index_def nat_diff_distrib' of_nat_diff)
  have "copy_run (out @ [out ! (length out - offset)]) (int (length (out @ [out ! (length out - offset)])) - int offset) n
        = Inr (spec_copy (out @ [out ! (length out - offset)]) offset n)"
    using Suc.prems by (intro Suc.IH) simp_all
  then show ?case using g by (simp add: algebra_simps)
qed

lemma length_eq: "uint b1 AND 0x0f = int (spec_length (b1 :: byte))"
  by (simp add: spec_length_def of_nat_and_eq)

lemma hi_nibble: "drop_bit 4 (uint (b1::byte) AND 0xf0) = drop_bit 4 (uint b1)"
proof -
  have m: "(0xf0 :: int) = push_bit 4 (mask 4)" by (simp add: mask_eq_exp_minus_1)
  show ?thesis unfolding m
    by (rule bit_eqI) (auto simp: bit_simps dest: bit_imp_le_length)
qed

lemma offset_eq:
  "push_bit 4 (uint b0) + drop_bit 4 (uint b1 AND 0xf0) = int (spec_offset b0 (b1 :: byte))"
proof -
  have "push_bit 4 (uint b0) + drop_bit 4 (uint b1) = push_bit 4 (uint b0) OR drop_bit 4 (uint b1)"
    by (rule disjunctive_add) (auto simp: bit_simps dest: bit_imp_le_length)
  then show ?thesis unfolding hi_nibble
    by (simp add: spec_offset_def of_nat_or_eq push_bit_of_nat[symmetric]
        drop_bit_of_nat[symmetric])
qed

lemma decompress_loop_end:
  assumes "0 < bits" "bit flag 0" "position + 1 < length data"
    and "spec_length (data ! (position + 1)) = 0"
  shows "decompress_loop data position flag bits out = Inr out"
  using assms by (subst decompress_loop.simps) (simp add: flag_test length_eq)

lemma decompress_loop_backref:
  assumes "0 < bits" "bit flag 0" "position + 1 < length data"
    and "spec_length (data ! (position + 1)) \<noteq> 0"
    and "0 < spec_offset (data ! position) (data ! (position + 1))"
    and "spec_offset (data ! position) (data ! (position + 1)) \<le> length out"
  shows "decompress_loop data position flag bits out =
           decompress_loop data (position + 2) (drop_bit 1 flag) (bits - 1)
             (spec_copy out (spec_offset (data ! position) (data ! (position + 1)))
                (spec_length (data ! (position + 1)) + 1))"
proof -
  let ?o = "spec_offset (data ! position) (data ! (position + 1))"
  let ?l = "spec_length (data ! (position + 1))"
  have n: "nat (int ?l + 1) = ?l + 1" by simp
  have c: "copy_run out (int (length out) - int ?o) (nat (int ?l + 1)) = Inr (spec_copy out ?o (?l + 1))"
    unfolding n using assms(5,6) by (rule copy_run_spec_copy)
  have f: "bits \<noteq> 0" "position < length data" "int ?l \<noteq> 0" "0 < int ?o"
    using assms by simp_all
  show ?thesis
    apply (subst decompress_loop.simps)
    apply (simp only: flag_test assms(2) f if_True if_False simp_thms Let_def length_eq offset_eq c
        sum.case not_not not_True_eq_False assms(3))
    done
qed

lemma items_refine:
  assumes "spec_items bs data pos out = Some r" and "\<forall>k < length bs. bs ! k = bit flag k"
  shows "decompress_loop data pos flag (length bs) out =
           (case r of Stop out' \<Rightarrow> Inr out' | Continue pos' out' \<Rightarrow> decompress_loop data pos' 0 0 out')"
  using assms
proof (induction bs arbitrary: pos out flag)
  case Nil
  then show ?case using decompress_loop_flag_irrelevant[of data pos flag out] by auto
next
  case (Cons b bs)
  have b: "bit flag 0 = b" using Cons.prems(2) by auto
  have tl: "\<forall>k < length bs. bs ! k = bit (drop_bit 1 flag) k"
    using Cons.prems(2) by (auto simp: bit_drop_bit_eq)
  show ?case
  proof (cases b)
    case False
    with Cons.prems(1) have p: "pos < length data"
      and s: "spec_items bs data (pos + 1) (out @ [data ! pos]) = Some r"
      by (auto split: if_splits)
    from Cons.IH[OF s tl] show ?thesis
      using decompress_loop_literal[of "length (b # bs)" flag pos data out] False b p by simp
  next
    case True
    with Cons.prems(1) have p: "pos + 1 < length data" by (auto split: if_splits)
    show ?thesis
    proof (cases "spec_length (data ! (pos + 1)) = 0")
      case z: True
      with Cons.prems(1) True p have "r = Stop out" by simp
      then show ?thesis
        using decompress_loop_end[of "length (b # bs)" flag pos data out] True b p z by simp
    next
      case nz: False
      let ?o = "spec_offset (data ! pos) (data ! (pos + 1))"
      from Cons.prems(1) True p nz have ok: "0 < ?o" "?o \<le> length out"
        and s: "spec_items bs data (pos + 2) (spec_copy out ?o (spec_length (data ! (pos + 1)) + 1)) = Some r"
        by (auto simp: Let_def split: if_splits simp del: spec_copy.simps)
      from Cons.IH[OF s tl] show ?thesis
        using decompress_loop_backref[of "length (b # bs)" flag pos data out] True b p nz ok
        by (simp del: spec_copy.simps)
    qed
  qed
qed

text \<open>
  Claim C1. \<open>decompress\<close> starts the loop at position 0 with empty output. At the start
  of a group the decompressor reads one flag byte and then processes the coded items of
  that byte's bits, least-significant bit first, as the specification describes them:
  a 0-bit copies one literal byte; a 1-bit reads \<open>b0, b1\<close>, decodes
  \<open>offset = (b0 << 4) | (b1 >> 4)\<close> and \<open>length = b1 & 0x0F\<close>, stops at once with the output
  so far when the length is 0, and otherwise appends \<open>length + 1\<close> bytes copied one at a
  time from position (current output length - offset). Whenever the items of the group
  are valid for the specification, the code stops with the same output, or goes on to the
  next group from the same position with the same output.
\<close>

theorem decompress_group:
  assumes "pos < length data"
    and "spec_items (flag_bits (data ! pos)) data (pos + 1) out = Some r"
  shows "decompress data = decompress_loop data 0 0 0 []
       \<and> decompress_loop data pos flag 0 out =
           (case r of
              Stop out' \<Rightarrow> Inr out'
            | Continue pos' out' \<Rightarrow> decompress_loop data pos' 0 0 out')"
proof -
  have bits: "\<forall>k < length (flag_bits (data ! pos)). flag_bits (data ! pos) ! k = bit (uint (data ! pos)) k"
    by (simp add: flag_bits_def bit_uint_iff)
  have "decompress_loop data (pos + 1) (uint (data ! pos)) (length (flag_bits (data ! pos))) out =
           (case r of Stop out' \<Rightarrow> Inr out' | Continue pos' out' \<Rightarrow> decompress_loop data pos' 0 0 out')"
    by (rule items_refine[OF assms(2) bits])
  then show ?thesis
    using decompress_loop_group[OF assms(1), of flag out] by (simp add: flag_bits_def decompress_def)
qed

text \<open>
  The stream of the claim's example: a literal \<open>A\<close>, then a back-reference with offset 1
  and length nibble 2, then the end marker. The output is \<open>AAAA\<close>.
\<close>

theorem decompress_group_witness:
  "decompress [0x06, 0x41, 0x00, 0x12, 0x00, 0x00] = Inr [0x41, 0x41, 0x41, 0x41]"
proof -
  have h: "spec_items (flag_bits ([0x06, 0x41, 0x00, 0x12, 0x00, 0x00] ! 0))
             [0x06, 0x41, 0x00, 0x12, 0x00, 0x00] (0 + 1) [] = Some (Stop [0x41, 0x41, 0x41, 0x41])"
    by code_simp
  from decompress_group[OF _ h, of 0] show ?thesis by simp
qed

text \<open>
  Claim C2 at a back-reference whose offset exceeds the output length: two literals
  \<open>A\<close>, \<open>B\<close>, then a back-reference with offset 3 and length nibble 1, then the end marker.
  No error is raised: the index \<open>len(output_data) - offset = -1\<close> is negative, Python reads
  from the end of the list, and the output is \<open>ABBA\<close>.
\<close>

theorem decompress_offset_beyond_output:
  "decompress [0x0C, 0x41, 0x42, 0x00, 0x31, 0x00, 0x00] = Inr [0x41, 0x42, 0x42, 0x41]
   \<and> spec_offset 0x00 0x31 = 3 \<and> spec_length 0x31 = 1"
  by code_simp

section \<open>soundfont.py: terminal records\<close>

lemma py_insert_before_last:
  "xs \<noteq> [] \<Longrightarrow> py_insert xs (-1) v = butlast xs @ [v, last xs]"
proof -
  assume ne: "xs \<noteq> []"
  then have n: "nat (max 0 (int (length xs) - 1)) = length xs - 1"
    by (cases xs) auto
  have "take (length xs - 1) xs = butlast xs" by (simp add: butlast_conv_take)
  moreover have "drop (length xs - 1) xs = [last xs]"
    using ne by (metis append_butlast_last_id append_eq_conv_conj length_butlast)
  ultimately show ?thesis by (simp add: py_insert_def Let_def n)
qed

lemma add_records_before_last:
  "xs \<noteq> [] \<Longrightarrow> add_records xs rs = (butlast xs @ rs @ [last xs], int (length xs) - 1)"
proof -
  have "xs \<noteq> [] \<Longrightarrow> foldl (\<lambda>l r. py_insert l (-1) r) xs rs = butlast xs @ rs @ [last xs]"
  proof (induction rs arbitrary: xs)
    case Nil
    then show ?case by simp
  next
    case (Cons r rs)
    have "foldl (\<lambda>l r. py_insert l (-1) r) (butlast xs @ [r, last xs]) rs
          = butlast (butlast xs @ [r, last xs]) @ rs @ [last (butlast xs @ [r, last xs])]"
      by (rule Cons.IH) simp
    then show ?case using Cons.prems by (simp add: py_insert_before_last butlast_append)
  qed
  then show "xs \<noteq> [] \<Longrightarrow> ?thesis" by (simp add: add_records_def)
qed

lemma ends_with_insert: "ends_with xs t \<Longrightarrow> ends_with (butlast xs @ rs @ [last xs]) t"
  by (simp add: ends_with_def)

lemma inserted_before_last_insert:
  "xs \<noteq> [] \<Longrightarrow> inserted_before_last xs (butlast xs @ rs @ [last xs])"
  by (simp add: inserted_before_last_def)

lemma inserted_before_last_refl: "inserted_before_last xs xs"
  by (simp add: inserted_before_last_def butlast_conv_take)

lemma call_step:
  assumes t: "terminated b" and c: "call b c = Inr b'"
  shows "terminated b' \<and> grown b b'
       \<and> length (phdr b') = length (phdr b) + (if is_add_preset c then 1 else 0)
       \<and> length (pbag b') = length (pbag b) + (if is_add_preset_zone c then 1 else 0)"
proof -
  from t have ne: "phdr b \<noteq> []" "pbag b \<noteq> []" "pmod b \<noteq> []" "pgen b \<noteq> []" "inst b \<noteq> []"
    "ibag b \<noteq> []" "imod b \<noteq> []" "igen b \<noteq> []" "shdr b \<noteq> []"
    by (simp_all add: terminated_def ends_with_def)
  note ins = py_insert_before_last add_records_before_last
  note facts = ends_with_insert[where rs = "[r]" for r, simplified] ends_with_insert
    inserted_before_last_insert[where rs = "[r]" for r, simplified] inserted_before_last_insert
    inserted_before_last_refl
  show ?thesis
  proof (cases c)
    case (AddPreset nm pr bk)
    with c have "b' = b\<lparr>phdr := butlast (phdr b) @ [\<lparr>ph_name = nm, preset = pr, bank = bk,
        preset_bag_index = int (length (pbag b)) - 1, library = 0, genre = 0, morphology = 0\<rparr>, last (phdr b)]\<rparr>"
      by (auto simp: add_preset_def Let_def ins ne split: if_splits)
    then show ?thesis using t ne AddPreset
      by (simp add: terminated_def grown_def facts)
  next
    case (AddPresetZone g m)
    with c have "b' = b\<lparr>pmod := butlast (pmod b) @ m @ [last (pmod b)],
        pgen := butlast (pgen b) @ g @ [last (pgen b)],
        pbag := butlast (pbag b) @ [\<lparr>generator_index = int (length (pgen b)) - 1,
                 modulator_index = int (length (pmod b)) - 1\<rparr>, last (pbag b)]\<rparr>"
      by (simp add: add_preset_zone_def ins ne)
    then show ?thesis using t ne AddPresetZone
      by (simp add: terminated_def grown_def facts)
  next
    case (AddInstrument nm)
    with c have "b' = b\<lparr>inst := butlast (inst b) @ [\<lparr>inst_name = nm,
        instrument_bag_index = int (length (ibag b)) - 1\<rparr>, last (inst b)]\<rparr>"
      by (auto simp: add_instrument_def Let_def ins ne)
    then show ?thesis using t ne AddInstrument
      by (simp add: terminated_def grown_def facts)
  next
    case (AddInstrumentZone g m)
    with c have "b' = b\<lparr>igen := butlast (igen b) @ g @ [last (igen b)],
        imod := butlast (imod b) @ m @ [last (imod b)],
        ibag := butlast (ibag b) @ [\<lparr>generator_index = int (length (igen b)) - 1,
                 modulator_index = int (length (imod b)) - 1\<rparr>, last (ibag b)]\<rparr>"
      by (simp add: add_instrument_zone_def ins ne)
    then show ?thesis using t ne AddInstrumentZone
      by (simp add: terminated_def grown_def facts)
  next
    case (AddSample nm data sl el rate pitch corr stype bits sg)
    with c obtain s r where "b' = b\<lparr>smpl := s, shdr := butlast (shdr b) @ [r, last (shdr b)]\<rparr>"
      by (auto simp: add_sample_def Let_def ins ne split: if_splits sum.splits)
    then show ?thesis using t ne AddSample
      by (simp add: terminated_def grown_def facts)
  qed
qed

lemma terminated_init: "terminated SoundFontBuilder"
  by (simp add: terminated_def ends_with_def SoundFontBuilder_def)

lemma calls_invariant:
  "terminated b0 \<Longrightarrow> calls b0 cs = Inr b \<Longrightarrow>
     terminated b
     \<and> length (phdr b) = length (phdr b0) + length (filter is_add_preset cs)
     \<and> length (pbag b) = length (pbag b0) + length (filter is_add_preset_zone cs)"
proof (induction cs arbitrary: b0)
  case Nil
  then show ?case by simp
next
  case (Cons c cs)
  from Cons.prems(2) obtain b1 where c: "call b0 c = Inr b1" and cs: "calls b1 cs = Inr b"
    by (auto split: sum.splits)
  from call_step[OF Cons.prems(1) c] Cons.IH[OF _ cs] show ?case by auto
qed

lemma update_last_nonempty: "xs \<noteq> [] \<Longrightarrow> update_last xs f = Inr (butlast xs @ [f (last xs)])"
proof -
  assume ne: "xs \<noteq> []"
  then have i: "py_index xs (-1) = Some (int (length xs) - 1)"
    by (cases xs) (auto simp: py_index_def)
  have "xs[length xs - 1 := f (last xs)] = butlast xs @ [f (last xs)]"
    using ne by (induction xs) (auto split: nat.splits)
  then show ?thesis using ne by (simp add: update_last_def i nat_diff_distrib' last_conv_nth)
qed

lemma prepare_terminal_records_terminated:
  assumes "terminated b"
  shows "prepare_terminal_records b =
     Inr (b\<lparr>phdr := butlast (phdr b) @ [(last (phdr b))\<lparr>preset_bag_index := int (length (pbag b)) - 1\<rparr>],
           pbag := butlast (pbag b) @ [(last (pbag b))\<lparr>generator_index := int (length (pgen b)) - 1,
                                        modulator_index := int (length (pmod b)) - 1\<rparr>],
           inst := butlast (inst b) @ [(last (inst b))\<lparr>instrument_bag_index := int (length (ibag b)) - 1\<rparr>],
           ibag := butlast (ibag b) @ [(last (ibag b))\<lparr>generator_index := int (length (igen b)) - 1,
                                        modulator_index := int (length (imod b)) - 1\<rparr>]\<rparr>)"
proof -
  from assms have ne: "phdr b \<noteq> []" "pbag b \<noteq> []" "inst b \<noteq> []" "ibag b \<noteq> []"
    by (simp_all add: terminated_def ends_with_def)
  show ?thesis by (simp add: prepare_terminal_records_def update_last_nonempty ne)
qed

text \<open>
  Claim C6 (as amended). After any sequence of successful builder calls, each of the nine
  record lists ends with its terminal record, and a further call leaves every list as
  it was or inserts its new records immediately before the last record. The preset
  header list holds one record per \<open>add_preset\<close> call plus the terminal one, and the
  preset bag list one record per \<open>add_preset_zone\<close> call plus the terminal one. Preparing
  the terminal records in \<open>build\<close> succeeds; it sets the generator and modulator index of
  the last preset bag and of the last instrument bag to the numbers of live records
  (all but the terminal one) of the corresponding generator and modulator lists, and
  leaves the other bags and those lists as they are.
\<close>

theorem builder_terminal_records:
  assumes "calls SoundFontBuilder cs = Inr b" and "call b c = Inr b'"
  shows "terminated b \<and> grown b b'
       \<and> length (phdr b) = length (filter is_add_preset cs) + 1
       \<and> length (pbag b) = length (filter is_add_preset_zone cs) + 1
       \<and> (\<exists>f. prepare_terminal_records b = Inr f
              \<and> last (pbag f) = \<lparr>generator_index = int (length (butlast (pgen b))),
                                 modulator_index = int (length (butlast (pmod b)))\<rparr>
              \<and> last (ibag f) = \<lparr>generator_index = int (length (butlast (igen b))),
                                 modulator_index = int (length (butlast (imod b)))\<rparr>
              \<and> butlast (pbag f) = butlast (pbag b) \<and> butlast (ibag f) = butlast (ibag b)
              \<and> pgen f = pgen b \<and> pmod f = pmod b \<and> igen f = igen b \<and> imod f = imod b)"
proof -
  from calls_invariant[OF terminated_init assms(1)]
  have t: "terminated b"
    and n: "length (phdr b) = length (filter is_add_preset cs) + 1"
           "length (pbag b) = length (filter is_add_preset_zone cs) + 1"
    by (simp_all add: SoundFontBuilder_def)
  from call_step[OF t assms(2)] have g: "grown b b'" by simp
  from t have ne: "pgen b \<noteq> []" "pmod b \<noteq> []" "igen b \<noteq> []" "imod b \<noteq> []"
    by (simp_all add: terminated_def ends_with_def)
  then have l: "int (length (butlast (pgen b))) = int (length (pgen b)) - 1"
    "int (length (butlast (pmod b))) = int (length (pmod b)) - 1"
    "int (length (butlast (igen b))) = int (length (igen b)) - 1"
    "int (length (butlast (imod b))) = int (length (imod b)) - 1"
    by (simp_all add: of_nat_diff Suc_leI)
  have "\<exists>f. prepare_terminal_records b = Inr f
              \<and> last (pbag f) = \<lparr>generator_index = int (length (butlast (pgen b))),
                                 modulator_index = int (length (butlast (pmod b)))\<rparr>
              \<and> last (ibag f) = \<lparr>generator_index = int (length (butlast (igen b))),
                                 modulator_index = int (length (butlast (imod b)))\<rparr>
              \<and> butlast (pbag f) = butlast (pbag b) \<and> butlast (ibag f) = butlast (ibag b)
              \<and> pgen f = pgen b \<and> pmod f = pmod b \<and> igen f = igen b \<and> imod f = imod b"
    unfolding prepare_terminal_records_terminated[OF t] l by simp
  with t g n show ?thesis by blast
qed

text \<open>
  Claim C6 as stated says the preset bag list has 4 entries after 3 presets are added.
  After three \<open>add_preset\<close> calls it has 1 entry, the terminal record; the preset header
  list has 4.
\<close>

theorem builder_pbag_counterexample:
  "map_sum id (length \<circ> pbag)
     (calls SoundFontBuilder [AddPreset ''A'' 0 0, AddPreset ''B'' 1 0, AddPreset ''C'' 2 0]) = Inr 1
   \<and> map_sum id (length \<circ> phdr)
     (calls SoundFontBuilder [AddPreset ''A'' 0 0, AddPreset ''B'' 1 0, AddPreset ''C'' 2 0]) = Inr 4"
  by (simp add: SoundFontBuilder_def add_preset_def py_insert_def)

theorem builder_terminal_records_witness:
  "map_sum id (length \<circ> phdr)
     (calls SoundFontBuilder [AddPreset ''A'' 0 0, AddPresetZone [] [], AddPreset ''B'' 1 0,
        AddPresetZone [terminal_gen] [], AddPreset ''C'' 2 0, AddPresetZone [] [terminal_mod]]) = Inr 4
   \<and> map_sum id (length \<circ> pbag)
     (calls SoundFontBuilder [AddPreset ''A'' 0 0, AddPresetZone [] [], AddPreset ''B'' 1 0,
        AddPresetZone [terminal_gen] [], AddPreset ''C'' 2 0, AddPresetZone [] [terminal_mod]]) = Inr 4"
proof -
  let ?cs = "[AddPreset ''A'' 0 0, AddPresetZone [] [], AddPreset ''B'' 1 0,
        AddPresetZone [terminal_gen] [], AddPreset ''C'' 2 0, AddPresetZone [] [terminal_mod]]"
  obtain b where b: "calls SoundFontBuilder ?cs = Inr b"
    by (simp add: add_preset_def add_preset_zone_def add_records_def py_insert_def Let_def
        SoundFontBuilder_def)
  obtain b' where b': "call b (AddInstrument ''I'') = Inr b'" by simp
  from builder_terminal_records[OF b b'] show ?thesis unfolding b by simp
qed

end
